theory Spec2Isabelle
  imports Complex_Main "HOL-Library.Sublist"
begin

section \<open>Data model (shared/schema.ts)\<close>

text \<open>
  The four tables of the schema. Primary keys are generated by the database
  (\<^verbatim>\<open>gen_random_uuid()\<close>); the model draws them from a counter that never repeats.
  Timestamps (\<^verbatim>\<open>defaultNow()\<close>, \<^verbatim>\<open>new Date()\<close>) are read off the logical clock of the
  world. Nullable columns are options. \<open>insertStudy\<close> is the row a caller hands to the
  database; the database adds the key and the creation time.
\<close>

record insertStudy =
  externalId :: string
  title :: string
  payout :: int
  duration :: string
  studyType :: string
  studyFormat :: "string option"
  matchScore :: "int option"
  postedAt :: "string option"
  link :: "string option"
  description :: "string option"
  notified :: "bool option"

record study = insertStudy +
  study_id :: nat
  createdAt :: nat

record emailRecipient =
  recipient_id :: nat
  email :: string
  active :: "bool option"
  recipient_createdAt :: nat

record agentSetting =
  setting_id :: nat
  checkIntervalMinutes :: "int option"
  isActive :: "bool option"
  lastCheckAt :: "nat option"

datatype logType = Info | Success | Warning | Error

record checkLog =
  log_id :: nat
  message :: string
  log_type :: logType
  log_createdAt :: nat

text \<open>What the scraper hands to the agent (\<^verbatim>\<open>ScrapedStudy\<close>); optional fields are options.\<close>

record scrapedStudy =
  sc_externalId :: string
  sc_title :: string
  sc_payout :: int
  sc_duration :: string
  sc_studyType :: string
  sc_studyFormat :: "string option"
  sc_matchScore :: "int option"
  sc_postedAt :: "string option"
  sc_link :: "string option"
  sc_description :: "string option"

text \<open>
  A notification as it leaves the process. The HTML of an email is kept as its parts:
  the count its header announces and one row for each study rendered, with the fields
  the template shows. The Discord embed is its title and the lines of its description.
\<close>

record emailRow =
  row_title :: string
  row_payout :: int
  row_duration :: string
  row_studyType :: string
  row_match :: "int option"
  row_posted :: "string option"
  row_link :: "string option"

record emailMessage =
  mail_to :: string
  mail_subject :: string
  mail_count :: nat
  mail_rows :: "emailRow list"

record discordEmbed =
  embed_title :: string
  embed_lines :: "string list"

section \<open>The world and its failures\<close>

text \<open>
  A JavaScript exception is a value carrying its message. Every call that leaves the
  process (a database statement, a browser step, the Gmail client, a send, a webhook
  request) may throw; which calls throw is fixed by the environment: \<open>faults e n\<close> is
  the message thrown by the \<open>n\<close>-th external call, or \<open>None\<close> when that call succeeds.
  The world counts the calls in \<open>tick\<close>, which is also its logical clock. Besides the
  tables it holds the two module variables of the agent, the console and what has been
  sent.
\<close>

datatype exn = Exn string

record env =
  faults :: "nat \<Rightarrow> string option"
  webhook_ok :: "nat \<Rightarrow> bool"
  webhookUrl :: "string option"
  pid :: nat

record world =
  studies :: "study list"
  emailRecipients :: "emailRecipient list"
  agentSettings :: "agentSetting list"
  checkLogs :: "checkLog list"
  next_id :: nat
  tick :: nat
  console :: "string list"
  outbox :: "emailMessage list"
  webhook_posts :: "discordEmbed list"
  isRunning :: bool
  agentInterval :: "nat option"

type_synonym 'a io = "world \<Rightarrow> (exn + 'a) \<times> world"

definition io_bind :: "'a io \<Rightarrow> ('a \<Rightarrow> 'b io) \<Rightarrow> 'b io" where
  "io_bind m k s = (case m s of (Inl x, s') \<Rightarrow> (Inl x, s') | (Inr a, s') \<Rightarrow> k a s')"

definition io_return :: "'a \<Rightarrow> 'a io" where
  "io_return a s = (Inr a, s)"

definition try_catch :: "'a io \<Rightarrow> (exn \<Rightarrow> 'a io) \<Rightarrow> 'a io" where
  "try_catch m h s = (case m s of (Inl x, s') \<Rightarrow> h x s' | (Inr a, s') \<Rightarrow> (Inr a, s'))"

definition query :: "env \<Rightarrow> (world \<Rightarrow> 'a \<times> world) \<Rightarrow> 'a io" where
  "query e f s =
     (let s' = s\<lparr>tick := Suc (tick s)\<rparr>
      in case faults e (tick s) of
           Some msg \<Rightarrow> (Inl (Exn msg), s')
         | None \<Rightarrow> (case f s' of (a, s'') \<Rightarrow> (Inr a, s'')))"

definition external_call :: "env \<Rightarrow> unit io" where
  "external_call e = query e (\<lambda>d. ((), d))"

definition console_log :: "string \<Rightarrow> world \<Rightarrow> world" where
  "console_log line s = s\<lparr>console := console s @ [line]\<rparr>"

section \<open>Numbers in template strings\<close>

definition digit_char :: "nat \<Rightarrow> char" where
  "digit_char n = ''0123456789'' ! n"

fun string_of_nat :: "nat \<Rightarrow> string" where
  "string_of_nat n =
     (if n < 10 then [digit_char n]
      else string_of_nat (n div 10) @ [digit_char (n mod 10)])"

declare string_of_nat.simps [simp del]

definition string_of_int :: "int \<Rightarrow> string" where
  "string_of_int i = (if i < 0 then CHR ''-'' # string_of_nat (nat (- i)) else string_of_nat (nat i))"

definition string_of_null_int :: "int option \<Rightarrow> string" where
  "string_of_null_int x = (case x of None \<Rightarrow> ''null'' | Some i \<Rightarrow> string_of_int i)"

text \<open>\<^verbatim>\<open>x || null\<close> and the truth test of a template: an empty text and 0 count as absent.\<close>

definition truthy_text :: "string option \<Rightarrow> string option" where
  "truthy_text x = (case x of None \<Rightarrow> None | Some t \<Rightarrow> if t = [] then None else Some t)"

definition truthy_num :: "int option \<Rightarrow> int option" where
  "truthy_num x = (case x of None \<Rightarrow> None | Some i \<Rightarrow> if i = 0 then None else Some i)"

section \<open>Storage layer (DatabaseStorage)\<close>

definition getStudyByExternalId :: "env \<Rightarrow> string \<Rightarrow> study option io" where
  "getStudyByExternalId e xid = query e (\<lambda>d. (find (\<lambda>r. externalId r = xid) (studies d), d))"

text \<open>
  An insert into \<^verbatim>\<open>studies\<close> is refused by the unique constraint on \<^verbatim>\<open>external_id\<close>
  when a row with that identity is there; the driver then throws.
\<close>

definition createStudy :: "env \<Rightarrow> insertStudy \<Rightarrow> study io" where
  "createStudy e ins =
     io_bind (external_call e) (\<lambda>_ d.
       if \<exists>r \<in> set (studies d). externalId r = externalId ins
       then (Inl (Exn ''duplicate key value violates unique constraint''), d)
       else (let row = \<lparr>externalId = externalId ins, title = title ins, payout = payout ins,
                        duration = duration ins, studyType = studyType ins,
                        studyFormat = studyFormat ins, matchScore = matchScore ins,
                        postedAt = postedAt ins, link = link ins, description = description ins,
                        notified = notified ins, study_id = next_id d, createdAt = tick d\<rparr>
             in (Inr row, d\<lparr>studies := studies d @ [row], next_id := Suc (next_id d)\<rparr>)))"

definition markStudyNotified :: "env \<Rightarrow> nat \<Rightarrow> unit io" where
  "markStudyNotified e i =
     query e (\<lambda>d. ((), d\<lparr>studies := map (\<lambda>r. if study_id r = i then r\<lparr>notified := Some True\<rparr> else r)
                                      (studies d)\<rparr>))"

definition syncStudies :: "env \<Rightarrow> string list \<Rightarrow> nat io" where
  "syncStudies e currentExternalIds s =
     (if length currentExternalIds = 0 then (Inr 0, s)
      else query e (\<lambda>d.
             (length (filter (\<lambda>r. externalId r \<notin> set currentExternalIds) (studies d)),
              d\<lparr>studies := filter (\<lambda>r. \<not> externalId r \<notin> set currentExternalIds) (studies d)\<rparr>)) s)"

definition getActiveEmailRecipients :: "env \<Rightarrow> emailRecipient list io" where
  "getActiveEmailRecipients e = query e (\<lambda>d. (filter (\<lambda>r. active r = Some True) (emailRecipients d), d))"

definition addCheckLog :: "env \<Rightarrow> string \<Rightarrow> logType \<Rightarrow> checkLog io" where
  "addCheckLog e msg ty =
     query e (\<lambda>d. let row = \<lparr>log_id = next_id d, message = msg, log_type = ty, log_createdAt = tick d\<rparr>
                   in (row, d\<lparr>checkLogs := checkLogs d @ [row], next_id := Suc (next_id d)\<rparr>))"

text \<open>
  The settings row is created with its defaults by the first read that finds the table
  empty, so a read that does not throw always has a row (the test \<^verbatim>\<open>!current\<close> of
  \<^verbatim>\<open>updateAgentSettings\<close> never fires). An update is a change of some columns, given as
  a function on the row, applied to the rows that carry the key of the current row; it
  returns the first row the statement returns, if any.
\<close>

definition getAgentSettings :: "env \<Rightarrow> agentSetting io" where
  "getAgentSettings e =
     io_bind (query e (\<lambda>d. (agentSettings d, d))) (\<lambda>result.
       case result of
         [] \<Rightarrow> query e (\<lambda>d. let row = \<lparr>setting_id = next_id d, checkIntervalMinutes = Some 10,
                                       isActive = Some True, lastCheckAt = None\<rparr>
                             in (row, d\<lparr>agentSettings := agentSettings d @ [row], next_id := Suc (next_id d)\<rparr>))
       | row # _ \<Rightarrow> io_return row)"

definition updateAgentSettings :: "env \<Rightarrow> (agentSetting \<Rightarrow> agentSetting) \<Rightarrow> agentSetting option io" where
  "updateAgentSettings e change =
     io_bind (getAgentSettings e) (\<lambda>current.
       query e (\<lambda>d.
         (case map change (filter (\<lambda>r. setting_id r = setting_id current) (agentSettings d)) of
            [] \<Rightarrow> None
          | row # _ \<Rightarrow> Some row,
          d\<lparr>agentSettings := map (\<lambda>r. if setting_id r = setting_id current then change r else r)
                                 (agentSettings d)\<rparr>)))"

section \<open>Field extraction (the function scrapeRespondentStudies evaluates in the page)\<close>









text \<open>\<^verbatim>\<open>String.prototype.includes\<close> and \<^verbatim>\<open>Array.prototype.join\<close>.\<close>

fun str_includes :: "string \<Rightarrow> string \<Rightarrow> bool" where
  "str_includes [] p = (p = [])"
| "str_includes (c # cs) p = (prefix p (c # cs) \<or> str_includes cs p)"

fun join :: "string \<Rightarrow> string list \<Rightarrow> string" where
  "join sep [] = []"
| "join sep [x] = x"
| "join sep (x # y # ys) = x @ sep @ join sep (y # ys)"

text \<open>
  The study format is read from \<open>allText\<close>, the normalised card text followed by the
  normalised metadata tokens. Normalisation (\<^verbatim>\<open>normalize('NFKD')\<close>, the replacement of
  the Unicode hyphens, \<^verbatim>\<open>toLowerCase\<close>, \<^verbatim>\<open>trim\<close>) is done by the built-in string
  operations before this point; \<open>normalizedCardText\<close> and \<open>metaTokens\<close> are the values
  of the two local variables it leaves.
\<close>

definition allText_of :: "string \<Rightarrow> string list \<Rightarrow> string" where
  "allText_of normalizedCardText metaTokens = normalizedCardText @ '' '' @ join '' '' metaTokens"

definition studyFormat_of :: "string \<Rightarrow> string" where
  "studyFormat_of allText =
     (if str_includes allText ''one-on-one'' \<or> str_includes allText ''1-on-1'' \<or> str_includes allText ''1:1''
      then ''One-on-One''
      else if str_includes allText ''unmoderated'' then ''Unmoderated''
      else if str_includes allText ''moderated'' \<and> \<not> str_includes allText ''unmoderated'' then ''Moderated''
      else if str_includes allText ''focus group'' then ''Focus Group''
      else if str_includes allText ''survey'' \<and> \<not> str_includes allText ''video survey'' then ''Survey''
      else if str_includes allText ''interview'' then ''Interview''
      else if str_includes allText ''diary'' \<or> str_includes allText ''journal'' then ''Diary Study''
      else if str_includes allText ''usability'' \<or> str_includes allText ''ux test'' then ''Usability Test''
      else [])"

text \<open>
  The priority order as the specification words it: a table of tests and tags, read
  from the top; the first test that holds gives the tag, and no test gives the empty tag.
\<close>

definition spec_format_priority :: "((string \<Rightarrow> bool) \<times> string) list" where
  "spec_format_priority =
     [(\<lambda>t. str_includes t ''one-on-one'' \<or> str_includes t ''1-on-1'' \<or> str_includes t ''1:1'', ''One-on-One''),
      (\<lambda>t. str_includes t ''unmoderated'', ''Unmoderated''),
      (\<lambda>t. str_includes t ''moderated'' \<and> \<not> str_includes t ''unmoderated'', ''Moderated''),
      (\<lambda>t. str_includes t ''focus group'', ''Focus Group''),
      (\<lambda>t. str_includes t ''survey'' \<and> \<not> str_includes t ''video survey'', ''Survey''),
      (\<lambda>t. str_includes t ''interview'', ''Interview''),
      (\<lambda>t. str_includes t ''diary'' \<or> str_includes t ''journal'', ''Diary Study''),
      (\<lambda>t. str_includes t ''usability'' \<or> str_includes t ''ux test'', ''Usability Test'')]"

definition spec_first_match :: "string \<Rightarrow> string" where
  "spec_first_match t =
     (case find (\<lambda>row. fst row t) spec_format_priority of
        Some row \<Rightarrow> snd row
      | None \<Rightarrow> [])"

section \<open>Scraper (scrapeRespondentStudies)\<close>

text \<open>
  The browser steps are external calls: launch, then new context, new page, goto,
  waitForSelector, waitForTimeout, evaluate and close. \<open>found\<close> is what the function
  evaluated in the page returns for the document that was loaded. A failed
  \<^verbatim>\<open>waitForSelector\<close> is swallowed by its own \<^verbatim>\<open>catch\<close>; any other failure goes to the
  handler, which closes the browser if it was launched (ignoring a failure of that) and
  returns the empty list.
\<close>

definition swallow :: "unit io \<Rightarrow> unit io" where
  "swallow m = try_catch m (\<lambda>_. io_return ())"

definition scrape_steps :: "env \<Rightarrow> scrapedStudy list \<Rightarrow> scrapedStudy list io" where
  "scrape_steps e found =
     io_bind (external_call e) (\<lambda>_.
     io_bind (external_call e) (\<lambda>_.
     io_bind (external_call e) (\<lambda>_.
     io_bind (try_catch (external_call e) (\<lambda>_ s.
                (Inr (), console_log ''No project links found, page might be loading differently'' s))) (\<lambda>_.
     io_bind (external_call e) (\<lambda>_.
     io_bind (external_call e) (\<lambda>_ s.
       io_bind (external_call e) (\<lambda>_. io_return found)
         (console_log (''Scraped '' @ string_of_nat (length found) @ '' studies from Respondent.io'') s)))))))"

definition scrapeRespondentStudies :: "env \<Rightarrow> scrapedStudy list \<Rightarrow> scrapedStudy list io" where
  "scrapeRespondentStudies e found s =
     (let s0 = console_log ''Launching headless browser for Respondent.io...'' s in
      case external_call e s0 of
        (Inl (Exn msg), s1) \<Rightarrow> (Inr [], console_log (''Error scraping Respondent.io: '' @ msg) s1)
      | (Inr _, s1) \<Rightarrow>
          try_catch (scrape_steps e found)
            (\<lambda>x s2. case x of Exn msg \<Rightarrow>
               io_bind (swallow (external_call e)) (\<lambda>_. io_return [])
                 (console_log (''Error scraping Respondent.io: '' @ msg) s2)) s1)"

section \<open>Notifier (sendStudyNotification, sendDiscordNotification)\<close>

definition email_row :: "study \<Rightarrow> emailRow" where
  "email_row st = \<lparr>row_title = title st, row_payout = payout st, row_duration = duration st,
     row_studyType = studyType st, row_match = truthy_num (matchScore st),
     row_posted = truthy_text (postedAt st), row_link = truthy_text (link st)\<rparr>"

definition email_subject :: "study list \<Rightarrow> string" where
  "email_subject sts =
     string_of_nat (length sts) @ '' New '' @ (if length sts = 1 then ''Study'' else ''Studies'')
       @ '' Found on Respondent.io''"

definition createEmailMessage :: "string \<Rightarrow> study list \<Rightarrow> emailMessage" where
  "createEmailMessage to sts = \<lparr>mail_to = to, mail_subject = email_subject sts,
     mail_count = length sts, mail_rows = map email_row sts\<rparr>"

text \<open>
  The loop over the recipients: each send is one external call inside its own
  \<^verbatim>\<open>try\<close>; a failure is written to the console and the loop goes on.
\<close>

fun send_each :: "env \<Rightarrow> study list \<Rightarrow> string list \<Rightarrow> world \<Rightarrow> world" where
  "send_each e sts [] s = s"
| "send_each e sts (to # rest) s =
     (case external_call e s of
        (Inl (Exn msg), s1) \<Rightarrow>
          send_each e sts rest (console_log (''[Email] Failed to send to '' @ to @ '': '' @ msg) s1)
      | (Inr _, s1) \<Rightarrow>
          send_each e sts rest
            (console_log (''[Email] Sent to '' @ to @ '' successfully'')
               (s1\<lparr>outbox := outbox s1 @ [createEmailMessage to sts]\<rparr>)))"

definition sendStudyNotification :: "env \<Rightarrow> string list \<Rightarrow> study list \<Rightarrow> bool io" where
  "sendStudyNotification e emails sts =
     try_catch
       (io_bind (external_call e) (\<lambda>_ s.
          (Inr True,
           send_each e sts emails
             (console_log (''[Email] Sending to '' @ string_of_nat (length emails)
                            @ '' recipient(s) via Gmail...'') s))))
       (\<lambda>x s. case x of Exn msg \<Rightarrow>
          (Inr False, console_log (''[Email] Failed to send notifications: '' @ msg) s))"

text \<open>
  The Discord digest. The status and body of a refused webhook request are not kept in
  the console line.
\<close>

definition discord_line :: "study \<Rightarrow> string" where
  "discord_line st =
     ''**'' @ title st @ ''**'' @ [CHR 0x0A] @ ''Payout: $'' @ string_of_int (payout st)
       @ '' | Duration: '' @ duration st @ '' | Type: '' @ studyType st
       @ (case truthy_text (studyFormat st) of Some f \<Rightarrow> '' | '' @ f | None \<Rightarrow> [])
       @ [CHR 0x0A]
       @ (case truthy_text (postedAt st) of Some p \<Rightarrow> ''Posted: '' @ p @ [CHR 0x0A] | None \<Rightarrow> [])
       @ (case truthy_text (link st) of Some l \<Rightarrow> ''[Apply Here]('' @ l @ '')'' | None \<Rightarrow> [])
       @ [CHR 0x0A]"

definition discord_embed :: "study list \<Rightarrow> discordEmbed" where
  "discord_embed sts =
     \<lparr>embed_title = [CHR 0xF0, CHR 0x9F, CHR 0x94, CHR 0x94] @ '' '' @ string_of_nat (length sts)
        @ '' New '' @ (if length sts = 1 then ''Study'' else ''Studies'') @ '' Found!'',
      embed_lines = map discord_line (take 10 sts)\<rparr>"

definition sendDiscordNotification :: "env \<Rightarrow> study list \<Rightarrow> bool io" where
  "sendDiscordNotification e sts s =
     (case truthy_text (webhookUrl e) of
        None \<Rightarrow> (Inr False, console_log ''[Discord] No webhook URL configured, skipping Discord notification'' s)
      | Some url \<Rightarrow>
          try_catch
            (io_bind (external_call e) (\<lambda>_ s1.
               if \<not> webhook_ok e (tick s)
               then io_bind (external_call e) (\<lambda>_ s2.
                      (Inr False, console_log ''[Discord] Webhook failed'' s2)) s1
               else (Inr True,
                     console_log (''[Discord] Notification sent successfully for ''
                        @ string_of_nat (length sts) @ '' studies'')
                       (s1\<lparr>webhook_posts := webhook_posts s1 @ [discord_embed sts]\<rparr>))))
            (\<lambda>x s1. case x of Exn msg \<Rightarrow>
               (Inr False, console_log (''[Discord] Failed to send notification: '' @ msg) s1)) s)"

section \<open>Agent (agent.ts)\<close>

definition logType_upper :: "logType \<Rightarrow> string" where
  "logType_upper ty = (case ty of Info \<Rightarrow> ''INFO'' | Success \<Rightarrow> ''SUCCESS''
                                  | Warning \<Rightarrow> ''WARNING'' | Error \<Rightarrow> ''ERROR'')"

text \<open>
  \<open>addLog\<close> never throws: a failure of the insert is caught and written to the console,
  and the console line of the entry is written in either case.
\<close>

definition addLog :: "env \<Rightarrow> string \<Rightarrow> logType \<Rightarrow> world \<Rightarrow> world" where
  "addLog e msg ty s =
     (let s1 = (case addCheckLog e msg ty s of
                  (Inl (Exn m), s') \<Rightarrow> console_log (''Failed to add log: '' @ m) s'
                | (Inr _, s') \<Rightarrow> s')
      in console_log (''[Agent '' @ logType_upper ty @ ''] '' @ msg) s1)"

definition insert_of :: "scrapedStudy \<Rightarrow> insertStudy" where
  "insert_of scraped = \<lparr>externalId = sc_externalId scraped, title = sc_title scraped,
     payout = sc_payout scraped, duration = sc_duration scraped, studyType = sc_studyType scraped,
     studyFormat = None, matchScore = truthy_num (sc_matchScore scraped),
     postedAt = truthy_text (sc_postedAt scraped), link = truthy_text (sc_link scraped),
     description = truthy_text (sc_description scraped), notified = Some False\<rparr>"

text \<open>
  The loop of \<open>runCheck\<close> over the scraped studies: look the identity up, and save the
  study when no row has it. It returns the rows saved, in order.
\<close>

fun reconcile :: "env \<Rightarrow> scrapedStudy list \<Rightarrow> study list io" where
  "reconcile e [] s = (Inr [], s)"
| "reconcile e (scraped # rest) s =
     (case getStudyByExternalId e (sc_externalId scraped) s of
        (Inl x, s1) \<Rightarrow> (Inl x, s1)
      | (Inr (Some existing), s1) \<Rightarrow> reconcile e rest s1
      | (Inr None, s1) \<Rightarrow>
          (case createStudy e (insert_of scraped) s1 of
             (Inl x, s2) \<Rightarrow> (Inl x, s2)
           | (Inr saved, s2) \<Rightarrow>
               (case reconcile e rest
                       (addLog e (''New study: '' @ [CHR 0x22] @ title saved @ [CHR 0x22] @ '' ($'' @ string_of_int (payout saved) @ '')'')
                          Success s2) of
                  (Inl x, s3) \<Rightarrow> (Inl x, s3)
                | (Inr more_new, s3) \<Rightarrow> (Inr (saved # more_new), s3))))"

fun mark_all :: "env \<Rightarrow> study list \<Rightarrow> unit io" where
  "mark_all e [] s = (Inr (), s)"
| "mark_all e (st # rest) s =
     (case markStudyNotified e (study_id st) s of
        (Inl x, s1) \<Rightarrow> (Inl x, s1)
      | (Inr _, s1) \<Rightarrow> mark_all e rest s1)"

text \<open>The notification part of \<open>runCheck\<close>, from reading the recipients to the return.\<close>

definition notify_new :: "env \<Rightarrow> study list \<Rightarrow> study list io" where
  "notify_new e newStudies =
     io_bind (getActiveEmailRecipients e) (\<lambda>activeRecipients s1.
       if length activeRecipients > 0
       then (let emails = map email activeRecipients;
                 s2 = addLog e (''Sending notifications to '' @ string_of_nat (length emails)
                                @ '' recipient(s)...'') Warning s1
             in io_bind (sendStudyNotification e emails newStudies) (\<lambda>success s3.
                  if success
                  then io_bind (mark_all e newStudies) (\<lambda>_. io_return newStudies)
                         (addLog e ''Email notifications sent successfully'' Success s3)
                  else (Inr newStudies, addLog e ''Failed to send email notifications'' Error s3)) s2)
       else (Inr newStudies, addLog e ''No active email recipients configured'' Warning s1))"

text \<open>The body of the \<^verbatim>\<open>try\<close> block of \<open>runCheck\<close>, and \<open>runCheck\<close> with its handler.\<close>

definition runCheck_try :: "env \<Rightarrow> scrapedStudy list \<Rightarrow> study list io" where
  "runCheck_try e found =
     io_bind (scrapeRespondentStudies e found) (\<lambda>scrapedStudies s1.
       if length scrapedStudies = 0
       then (Inr [], addLog e ''No studies found on Respondent.io page'' Info s1)
       else io_bind (reconcile e scrapedStudies) (\<lambda>newStudies s2.
              if length newStudies = 0
              then (Inr [], addLog e ''All studies already known - no new matches'' Info s2)
              else notify_new e newStudies s2)
              (addLog e (''Found '' @ string_of_nat (length scrapedStudies) @ '' potential studies'') Info s1))"

definition runCheck :: "env \<Rightarrow> scrapedStudy list \<Rightarrow> study list io" where
  "runCheck e found s =
     try_catch (runCheck_try e found)
       (\<lambda>x s1. case x of Exn msg \<Rightarrow> (Inr [], addLog e (''Check failed: '' @ msg) Error s1))
       (addLog e ''Initiating scheduled check...'' Info s)"

text \<open>
  The scheduler. \<open>agentInterval\<close> holds the period, in milliseconds, of the timer that
  is set, and \<open>None\<close> when no timer is set. \<open>interval_callback\<close> is the function the
  timer runs each time it fires.
\<close>

definition stopAgent :: "env \<Rightarrow> world \<Rightarrow> world" where
  "stopAgent e s = addLog e ''Agent stopped'' Info (s\<lparr>agentInterval := None, isRunning := False\<rparr>)"

definition touch_lastCheckAt :: "env \<Rightarrow> unit io" where
  "touch_lastCheckAt e s =
     io_bind (updateAgentSettings e (\<lambda>r. r\<lparr>lastCheckAt := Some (tick s)\<rparr>)) (\<lambda>_. io_return ()) s"


definition intervalMs_of :: "agentSetting \<Rightarrow> nat" where
  "intervalMs_of settings =
     nat ((case truthy_num (checkIntervalMinutes settings) of None \<Rightarrow> 10 | Some m \<Rightarrow> m) * 60 * 1000)"

definition startAgent :: "env \<Rightarrow> scrapedStudy list \<Rightarrow> unit io" where
  "startAgent e found s =
     (if isRunning s then (Inr (), addLog e ''Agent already running'' Warning s)
      else io_bind (getAgentSettings e) (\<lambda>settings s1.
             if isActive settings \<noteq> Some True
             then (Inr (), addLog e ''Agent is disabled in settings'' Info s1)
             else (let s2 = addLog e ''Monitoring: https://app.respondent.io/respondents/v2/projects/browse'' Info
                              (addLog e (''Check interval: '' @ string_of_null_int (checkIntervalMinutes settings)
                                           @ '' minutes'') Info
                                 (addLog e (''Agent started (PID: '' @ string_of_nat (pid e) @ '')'') Info
                                    (s1\<lparr>isRunning := True\<rparr>)))
                   in io_bind (runCheck e found) (\<lambda>_.
                      io_bind (touch_lastCheckAt e) (\<lambda>_ s3.
                        (Inr (), addLog e (''Next check in '' @ string_of_null_int (checkIntervalMinutes settings)
                                             @ '' minutes'') Info
                                   (s3\<lparr>agentInterval := Some (intervalMs_of settings)\<rparr>)))) s2)) s)"

definition restartAgent :: "env \<Rightarrow> scrapedStudy list \<Rightarrow> unit io" where
  "restartAgent e found s = startAgent e found (stopAgent e s)"


section \<open>Vocabulary of the statements\<close>

text \<open>
  The recipients of a list whose send succeeds, when the first send is external call
  number \<open>n\<close>.
\<close>

definition delivered :: "env \<Rightarrow> nat \<Rightarrow> string list \<Rightarrow> string list" where
  "delivered e n emails = map snd (filter (\<lambda>p. faults e (fst p) = None) (enumerate n emails))"

text \<open>
  What a run leaves alone besides the studies: the recipients, the settings and the
  state of the scheduler; keys and clock only grow.
\<close>

definition same_settings :: "world \<Rightarrow> world \<Rightarrow> bool" where
  "same_settings s s' \<longleftrightarrow>
     emailRecipients s' = emailRecipients s \<and> agentSettings s' = agentSettings s \<and>
     isRunning s' = isRunning s \<and> agentInterval s' = agentInterval s \<and>
     next_id s \<le> next_id s' \<and> tick s \<le> tick s'"

text \<open>
  Raising the flag of the records with given keys; two lists of records that differ at
  most by flags raised on such records; and whether, in the notification part of a run,
  \<open>sendStudyNotification\<close> is called and returns true.
\<close>

definition raise_flag :: "nat set \<Rightarrow> study \<Rightarrow> study" where
  "raise_flag ids r = (if study_id r \<in> ids then r\<lparr>notified := Some True\<rparr> else r)"

definition only_raised :: "nat set \<Rightarrow> study list \<Rightarrow> study list \<Rightarrow> bool" where
  "only_raised ids old new =
     list_all2 (\<lambda>x y. y = x \<or> (y = x\<lparr>notified := Some True\<rparr> \<and> study_id x \<in> ids)) old new"

definition notification_sent :: "env \<Rightarrow> study list \<Rightarrow> world \<Rightarrow> bool" where
  "notification_sent e newStudies s =
     (case getActiveEmailRecipients e s of
        (Inl x, s1) \<Rightarrow> False
      | (Inr activeRecipients, s1) \<Rightarrow>
          length activeRecipients > 0 \<and>
          fst (sendStudyNotification e (map email activeRecipients) newStudies
                 (addLog e (''Sending notifications to ''
                              @ string_of_nat (length (map email activeRecipients))
                              @ '' recipient(s)...'') Warning s1)) = Inr True)"

text \<open>
  Whether, in a run, \<open>sendStudyNotification\<close> is reached and returns true, and whether
  the \<^verbatim>\<open>try\<close> block of the run throws.
\<close>

definition try_sent :: "env \<Rightarrow> scrapedStudy list \<Rightarrow> world \<Rightarrow> bool" where
  "try_sent e found s =
     (case scrapeRespondentStudies e found s of
        (Inl x, s1) \<Rightarrow> False
      | (Inr scrapedStudies, s1) \<Rightarrow>
          (case reconcile e scrapedStudies
                  (addLog e (''Found '' @ string_of_nat (length scrapedStudies) @ '' potential studies'') Info s1) of
             (Inl x, s2) \<Rightarrow> False
           | (Inr newStudies, s2) \<Rightarrow> newStudies \<noteq> [] \<and> notification_sent e newStudies s2))"

definition run_sent :: "env \<Rightarrow> scrapedStudy list \<Rightarrow> world \<Rightarrow> bool" where
  "run_sent e found s = try_sent e found (addLog e ''Initiating scheduled check...'' Info s)"

definition run_threw :: "env \<Rightarrow> scrapedStudy list \<Rightarrow> world \<Rightarrow> bool" where
  "run_threw e found s = isl (fst (runCheck_try e found (addLog e ''Initiating scheduled check...'' Info s)))"

section \<open>Example values\<close>

definition no_faults :: env where
  "no_faults = \<lparr>faults = \<lambda>_. None, webhook_ok = \<lambda>_. True, webhookUrl = None, pid = 1\<rparr>"

definition study_abc :: study where
  "study_abc = \<lparr>externalId = ''abc123'', title = ''Developer Tools Interview'',
     payout = 150, duration = ''45 min'', studyType = ''Remote'', studyFormat = None,
     matchScore = None, postedAt = Some ''2 days ago'', link = None, description = None,
     notified = Some True, study_id = 0, createdAt = 3\<rparr>"

definition study_def :: study where
  "study_def = \<lparr>externalId = ''def456'', title = ''Banking Habits Survey'',
     payout = 75, duration = ''20 min'', studyType = ''Remote'', studyFormat = None,
     matchScore = None, postedAt = None, link = None, description = None,
     notified = Some False, study_id = 1, createdAt = 5\<rparr>"

definition world_empty :: world where
  "world_empty = \<lparr>studies = [], emailRecipients = [], agentSettings = [],
     checkLogs = [], next_id = 0, tick = 0, console = [], outbox = [], webhook_posts = [],
     isRunning = False, agentInterval = None\<rparr>"

definition store_two :: world where
  "store_two = world_empty\<lparr>studies := [study_abc, study_def], next_id := 2, tick := 7\<rparr>"

definition gmail_one_refused :: env where
  "gmail_one_refused = no_faults\<lparr>faults := (\<lambda>n. if n = 2 then Some ''quota exceeded'' else None)\<rparr>"

definition gmail_down :: env where
  "gmail_down = no_faults\<lparr>faults := (\<lambda>n. if n = 0 then Some ''Gmail not connected'' else None)\<rparr>"

definition three_recipients :: "string list" where
  "three_recipients = [''ann@example.com'', ''bob@example.com'', ''cy@example.com'']"

definition numbered_study :: "nat \<Rightarrow> study" where
  "numbered_study i = study_def\<lparr>externalId := ''c0ffee'' @ string_of_nat i, notified := Some False, study_id := i\<rparr>"

definition eleven_studies :: "study list" where
  "eleven_studies = map numbered_study [0, 1, 2, 3, 4, 5, 6, 7, 8, 9, 10]"

definition with_webhook :: env where
  "with_webhook = no_faults\<lparr>webhookUrl := Some ''https://discord.com/api/webhooks/1/token''\<rparr>"

definition scraped_abc :: scrapedStudy where
  "scraped_abc = \<lparr>sc_externalId = ''abc123'', sc_title = ''Developer Tools Interview (updated)'',
     sc_payout = 175, sc_duration = ''60 min'', sc_studyType = ''Remote'', sc_studyFormat = None,
     sc_matchScore = None, sc_postedAt = Some ''3 days ago'',
     sc_link = Some ''https://app.respondent.io/respondents/v2/projects/view/abc123'',
     sc_description = None\<rparr>"

definition scraped_new :: scrapedStudy where
  "scraped_new = \<lparr>sc_externalId = ''0a1b2c'', sc_title = ''Checkout Usability Test'',
     sc_payout = 120, sc_duration = ''30 min'', sc_studyType = ''Remote'', sc_studyFormat = Some ''Unmoderated'',
     sc_matchScore = Some 0, sc_postedAt = Some [],
     sc_link = Some ''https://app.respondent.io/respondents/v2/projects/view/0a1b2c'',
     sc_description = None\<rparr>"

definition two_candidates :: "scrapedStudy list" where
  "two_candidates = [scraped_abc, scraped_new]"

definition recipient_ann :: emailRecipient where
  "recipient_ann = \<lparr>recipient_id = 40, email = ''ann@example.com'', active = Some True,
     recipient_createdAt = 1\<rparr>"

definition recipient_bob :: emailRecipient where
  "recipient_bob = \<lparr>recipient_id = 41, email = ''bob@example.com'', active = Some False,
     recipient_createdAt = 2\<rparr>"

definition store_ready :: world where
  "store_ready = store_two\<lparr>emailRecipients := [recipient_ann, recipient_bob], next_id := 42\<rparr>"

definition gmail_unreachable :: env where
  "gmail_unreachable = no_faults\<lparr>faults := (\<lambda>n. if n = 9 then Some ''Gmail not connected'' else None)\<rparr>"

definition scraped_new2 :: scrapedStudy where
  "scraped_new2 = \<lparr>sc_externalId = ''9f8e7d'', sc_title = ''Grocery Delivery Diary'',
     sc_payout = 90, sc_duration = ''15 min'', sc_studyType = ''Unknown'', sc_studyFormat = Some ''Diary Study'',
     sc_matchScore = None, sc_postedAt = Some ''a day ago'',
     sc_link = Some ''https://app.respondent.io/respondents/v2/projects/view/9f8e7d'',
     sc_description = Some ''Keep a short diary''\<rparr>"

definition two_new :: "scrapedStudy list" where
  "two_new = [scraped_new, scraped_new2]"

definition db_down_at :: "nat \<Rightarrow> env" where
  "db_down_at n = no_faults\<lparr>faults := (\<lambda>k. if k = n then Some ''connection terminated'' else None)\<rparr>"





section \<open>Pruning\<close>

text \<open>
  C3. \<open>syncStudies\<close> with an empty identity list returns 0 and leaves the whole
  store as it was, without reaching the database. With a non-empty list, when the
  delete statement goes through, the records left are exactly the stored records whose
  \<open>externalId\<close> is in the list, in their order, the count returned is the number of
  records that went away, and no other table changes.
\<close>

theorem syncStudies_prune:
  "syncStudies e [] s = (Inr 0, s) \<and>
   (ids \<noteq> [] \<and> faults e (tick s) = None \<longrightarrow>
      (\<exists>s'. syncStudies e ids s = (Inr (length (studies s) - length (studies s')), s') \<and>
            studies s' = filter (\<lambda>r. externalId r \<in> set ids) (studies s) \<and>
            set (studies s) - set (studies s') = {r \<in> set (studies s). externalId r \<notin> set ids} \<and>
            emailRecipients s' = emailRecipients s \<and> agentSettings s' = agentSettings s \<and>
            checkLogs s' = checkLogs s))"
proof -
  have len: "length (filter (\<lambda>r. externalId r \<notin> set ids) xs) =
             length xs - length (filter (\<lambda>r. externalId r \<in> set ids) xs)" for xs :: "study list"
    using sum_length_filter_compl [of "\<lambda>r. externalId r \<in> set ids" xs] by simp
  show ?thesis
    by (auto simp: syncStudies_def query_def len)
qed

theorem syncStudies_prune_witness:
  "[''abc123''] \<noteq> [] \<and> faults no_faults (tick store_two) = None \<and>
   syncStudies no_faults [''abc123''] store_two =
     (Inr 1, store_two\<lparr>tick := 8, studies := [study_abc]\<rparr>)"
  using syncStudies_prune [of no_faults store_two "[''abc123'']"]
  by (simp add: no_faults_def store_two_def study_abc_def study_def_def syncStudies_def query_def)

section \<open>Amount\<close>













section \<open>Study format\<close>

lemma str_includes_sublist: "str_includes t p \<longleftrightarrow> sublist p t"
  by (induction t) (auto simp: sublist_Cons_right)

lemma unmoderated_moderated:
  "str_includes t ''unmoderated'' \<Longrightarrow> str_includes t ''moderated''"
proof -
  assume "str_includes t ''unmoderated''"
  then have "sublist ''unmoderated'' t" by (simp only: str_includes_sublist)
  moreover have "sublist ''moderated'' ''unmoderated''"
    using sublist_appendI [of "''moderated''" "''un''" "[]"] by simp
  ultimately have "sublist ''moderated'' t"
    by (rule sublist_order.order_trans [rotated])
  then show ?thesis by (simp only: str_includes_sublist)
qed

text \<open>
  C5. The format tag the code computes is the tag of the first row of the priority
  table that matches, and the empty tag when no row matches. In particular a text with
  \<^verbatim>\<open>unmoderated\<close> and \<^verbatim>\<open>moderated\<close> and none of the one-on-one variants is tagged
  \<^verbatim>\<open>Unmoderated\<close>, whatever else it contains.
\<close>

theorem studyFormat_of_priority:
  "studyFormat_of t = spec_first_match t \<and>
   (str_includes (allText_of n ts) ''unmoderated'' \<and> str_includes (allText_of n ts) ''moderated'' \<and>
    \<not> str_includes (allText_of n ts) ''one-on-one'' \<and> \<not> str_includes (allText_of n ts) ''1-on-1'' \<and>
    \<not> str_includes (allText_of n ts) ''1:1'' \<longrightarrow>
    studyFormat_of (allText_of n ts) = ''Unmoderated'')"
proof
  show "studyFormat_of t = spec_first_match t"
    unfolding studyFormat_of_def spec_first_match_def spec_format_priority_def
    by simp
next
  show "str_includes (allText_of n ts) ''unmoderated'' \<and> str_includes (allText_of n ts) ''moderated'' \<and>
    \<not> str_includes (allText_of n ts) ''one-on-one'' \<and> \<not> str_includes (allText_of n ts) ''1-on-1'' \<and>
    \<not> str_includes (allText_of n ts) ''1:1'' \<longrightarrow>
    studyFormat_of (allText_of n ts) = ''Unmoderated''"
    by (simp add: studyFormat_of_def)
qed


theorem studyFormat_of_priority_witness:
  "str_includes (allText_of ''unmoderated, moderated'' [''remote'']) ''unmoderated'' \<and>
   str_includes (allText_of ''unmoderated, moderated'' [''remote'']) ''moderated'' \<and>
   \<not> str_includes (allText_of ''unmoderated, moderated'' [''remote'']) ''one-on-one'' \<and>
   \<not> str_includes (allText_of ''unmoderated, moderated'' [''remote'']) ''1-on-1'' \<and>
   \<not> str_includes (allText_of ''unmoderated, moderated'' [''remote'']) ''1:1'' \<and>
   studyFormat_of (allText_of ''unmoderated, moderated'' [''remote'']) = ''Unmoderated''"
  using studyFormat_of_priority [of "[]" "''unmoderated, moderated''" "[''remote'']"]
  by (simp add: allText_of_def)

section \<open>Notification fan-out\<close>

lemma external_call_eq:
  "external_call e s =
     (case faults e (tick s) of None \<Rightarrow> Inr () | Some m \<Rightarrow> Inl (Exn m), s\<lparr>tick := Suc (tick s)\<rparr>)"
  by (simp add: external_call_def query_def split: option.splits)

lemma send_each_ok:
  "faults e (tick s) = None \<Longrightarrow>
   send_each e sts (to # rest) s =
     send_each e sts rest
       (console_log (''[Email] Sent to '' @ to @ '' successfully'')
          (s\<lparr>tick := Suc (tick s), outbox := outbox s @ [createEmailMessage to sts]\<rparr>))"
  by (simp add: external_call_eq)

lemma send_each_fail:
  "faults e (tick s) = Some m \<Longrightarrow>
   send_each e sts (to # rest) s =
     send_each e sts rest
       (console_log (''[Email] Failed to send to '' @ to @ '': '' @ m) (s\<lparr>tick := Suc (tick s)\<rparr>))"
  by (simp add: external_call_eq)

lemma send_each_tick: "tick (send_each e sts emails s) = tick s + length emails"
proof (induction emails arbitrary: s)
  case Nil
  then show ?case by simp
next
  case (Cons to rest)
  show ?case
    by (cases "faults e (tick s)")
       (simp_all add: send_each_ok send_each_fail Cons.IH console_log_def del: send_each.simps)
qed

lemma send_each_outbox:
  "outbox (send_each e sts emails s) =
     outbox s @ map (\<lambda>to. createEmailMessage to sts) (delivered e (tick s) emails)"
proof (induction emails arbitrary: s)
  case Nil
  then show ?case by (simp add: delivered_def)
next
  case (Cons to rest)
  show ?case
    by (cases "faults e (tick s)")
       (simp_all add: send_each_ok send_each_fail Cons.IH console_log_def delivered_def
          del: send_each.simps)
qed

lemma send_each_console_mono: "x \<in> set (console s) \<Longrightarrow> x \<in> set (console (send_each e sts emails s))"
proof (induction emails arbitrary: s)
  case Nil
  then show ?case by simp
next
  case (Cons to rest)
  show ?case
  proof (cases "faults e (tick s)")
    case None
    show ?thesis
      unfolding send_each_ok [OF None]
      by (rule Cons.IH) (simp add: console_log_def Cons.prems)
  next
    case (Some m)
    show ?thesis
      unfolding send_each_fail [OF Some]
      by (rule Cons.IH) (simp add: console_log_def Cons.prems)
  qed
qed

lemma send_each_failure_logged:
  "i < length emails \<Longrightarrow> faults e (tick s + i) = Some msg \<Longrightarrow>
   ''[Email] Failed to send to '' @ emails ! i @ '': '' @ msg \<in> set (console (send_each e sts emails s))"
proof (induction emails arbitrary: s i)
  case Nil
  then show ?case by simp
next
  case (Cons to rest)
  show ?case
  proof (cases i)
    case 0
    with Cons.prems have f: "faults e (tick s) = Some msg" by simp
    show ?thesis
      unfolding send_each_fail [OF f] 0
      by (rule send_each_console_mono) (simp add: console_log_def)
  next
    case (Suc j)
    with Cons.prems have j: "j < length rest" and fj: "faults e (Suc (tick s) + j) = Some msg"
      by simp_all
    show ?thesis
    proof (cases "faults e (tick s)")
      case None
      show ?thesis
        unfolding send_each_ok [OF None] Suc nth_Cons_Suc
        using fj by (intro Cons.IH [OF j]) (simp add: console_log_def)
    next
      case (Some m)
      show ?thesis
        unfolding send_each_fail [OF Some] Suc nth_Cons_Suc
        using fj by (intro Cons.IH [OF j]) (simp add: console_log_def)
    qed
  qed
qed

text \<open>
  C7. When the Gmail client cannot be obtained the call returns false and sends
  nothing. Otherwise it returns true whatever the single sends do: every recipient of
  the list is tried exactly once, in order (one external call each, so none is tried
  again), a message goes out to exactly the recipients whose own send succeeds, and
  each failed send leaves its line on the console.
\<close>

theorem sendStudyNotification_fan_out:
  "(faults e (tick s) \<noteq> None \<longrightarrow>
      fst (sendStudyNotification e emails sts s) = Inr False \<and>
      outbox (snd (sendStudyNotification e emails sts s)) = outbox s) \<and>
   (faults e (tick s) = None \<longrightarrow>
      fst (sendStudyNotification e emails sts s) = Inr True \<and>
      tick (snd (sendStudyNotification e emails sts s)) = Suc (tick s) + length emails \<and>
      outbox (snd (sendStudyNotification e emails sts s)) =
        outbox s @ map (\<lambda>to. createEmailMessage to sts) (delivered e (Suc (tick s)) emails) \<and>
      (\<forall>i msg. i < length emails \<and> faults e (Suc (tick s) + i) = Some msg \<longrightarrow>
         ''[Email] Failed to send to '' @ emails ! i @ '': '' @ msg
           \<in> set (console (snd (sendStudyNotification e emails sts s)))))"
proof (intro conjI impI)
  assume "faults e (tick s) \<noteq> None"
  then obtain m where m: "faults e (tick s) = Some m" by auto
  then show "fst (sendStudyNotification e emails sts s) = Inr False"
    and "outbox (snd (sendStudyNotification e emails sts s)) = outbox s"
    by (simp_all add: sendStudyNotification_def try_catch_def io_bind_def external_call_eq console_log_def)
next
  assume ok: "faults e (tick s) = None"
  have run: "sendStudyNotification e emails sts s =
     (Inr True, send_each e sts emails
        (console_log (''[Email] Sending to '' @ string_of_nat (length emails) @ '' recipient(s) via Gmail...'')
           (s\<lparr>tick := Suc (tick s)\<rparr>)))"
    using ok by (simp add: sendStudyNotification_def try_catch_def io_bind_def external_call_eq)
  show "fst (sendStudyNotification e emails sts s) = Inr True"
    by (simp add: run)
  show "tick (snd (sendStudyNotification e emails sts s)) = Suc (tick s) + length emails"
    by (simp add: run send_each_tick console_log_def)
  show "outbox (snd (sendStudyNotification e emails sts s)) =
        outbox s @ map (\<lambda>to. createEmailMessage to sts) (delivered e (Suc (tick s)) emails)"
    by (simp add: run send_each_outbox console_log_def)
  show "\<forall>i msg. i < length emails \<and> faults e (Suc (tick s) + i) = Some msg \<longrightarrow>
         ''[Email] Failed to send to '' @ emails ! i @ '': '' @ msg
           \<in> set (console (snd (sendStudyNotification e emails sts s)))"
    unfolding run snd_conv
    by (intro allI impI send_each_failure_logged) (simp_all add: console_log_def)
qed


theorem sendStudyNotification_fan_out_witness:
  "faults gmail_one_refused (tick world_empty) = None \<and>
   fst (sendStudyNotification gmail_one_refused three_recipients [study_def] world_empty) = Inr True \<and>
   map mail_to (outbox (snd (sendStudyNotification gmail_one_refused three_recipients [study_def] world_empty)))
     = [''ann@example.com'', ''cy@example.com''] \<and>
   1 < length three_recipients \<and>
   faults gmail_one_refused (Suc (tick world_empty) + 1) = Some ''quota exceeded'' \<and>
   ''[Email] Failed to send to '' @ three_recipients ! 1 @ '': '' @ ''quota exceeded''
      \<in> set (console (snd (sendStudyNotification gmail_one_refused three_recipients [study_def] world_empty))) \<and>
   faults gmail_down (tick world_empty) \<noteq> None \<and>
   fst (sendStudyNotification gmail_down three_recipients [study_def] world_empty) = Inr False \<and>
   outbox (snd (sendStudyNotification gmail_down three_recipients [study_def] world_empty)) = []"
proof -
  have a: "faults gmail_one_refused (tick world_empty) = None"
    and b: "faults gmail_down (tick world_empty) \<noteq> None"
    and c: "1 < length three_recipients \<and> faults gmail_one_refused (Suc (tick world_empty) + 1) = Some ''quota exceeded''"
    by (simp_all add: gmail_one_refused_def gmail_down_def no_faults_def world_empty_def three_recipients_def)
  have d: "delivered gmail_one_refused (Suc (tick world_empty)) three_recipients = [''ann@example.com'', ''cy@example.com'']"
    by (simp add: delivered_def enumerate_eq_zip gmail_one_refused_def no_faults_def world_empty_def
        three_recipients_def upt_rec)
  from sendStudyNotification_fan_out [of gmail_one_refused world_empty three_recipients "[study_def]"] a
  have ok: "fst (sendStudyNotification gmail_one_refused three_recipients [study_def] world_empty) = Inr True"
    and out: "outbox (snd (sendStudyNotification gmail_one_refused three_recipients [study_def] world_empty)) =
        outbox world_empty @ map (\<lambda>to. createEmailMessage to [study_def])
          (delivered gmail_one_refused (Suc (tick world_empty)) three_recipients)"
    and logged: "\<forall>i msg. i < length three_recipients \<and> faults gmail_one_refused (Suc (tick world_empty) + i) = Some msg \<longrightarrow>
         ''[Email] Failed to send to '' @ three_recipients ! i @ '': '' @ msg
           \<in> set (console (snd (sendStudyNotification gmail_one_refused three_recipients [study_def] world_empty)))"
    by simp_all
  from sendStudyNotification_fan_out [of gmail_down world_empty three_recipients "[study_def]"] b
  have down: "fst (sendStudyNotification gmail_down three_recipients [study_def] world_empty) = Inr False"
    and none: "outbox (snd (sendStudyNotification gmail_down three_recipients [study_def] world_empty)) = outbox world_empty"
    by simp_all
  from logged c have l: "''[Email] Failed to send to '' @ three_recipients ! 1 @ '': '' @ ''quota exceeded''
      \<in> set (console (snd (sendStudyNotification gmail_one_refused three_recipients [study_def] world_empty)))"
    by blast
  have e: "outbox world_empty = []" by (simp add: world_empty_def)
  have m: "map mail_to (outbox (snd (sendStudyNotification gmail_one_refused three_recipients [study_def] world_empty)))
     = [''ann@example.com'', ''cy@example.com'']"
    by (simp add: out d e createEmailMessage_def)
  show ?thesis
    using a b c ok m l down none e by simp
qed

section \<open>Size of a digest\<close>

lemma sendStudyNotification_down:
  "faults e (tick s) = Some m \<Longrightarrow>
   sendStudyNotification e emails sts s =
     (Inr False, console_log (''[Email] Failed to send notifications: '' @ m) (s\<lparr>tick := Suc (tick s)\<rparr>))"
  by (simp add: sendStudyNotification_def try_catch_def io_bind_def external_call_eq)

lemma sendStudyNotification_up:
  "faults e (tick s) = None \<Longrightarrow>
   sendStudyNotification e emails sts s =
     (Inr True, send_each e sts emails
        (console_log (''[Email] Sending to '' @ string_of_nat (length emails) @ '' recipient(s) via Gmail...'')
           (s\<lparr>tick := Suc (tick s)\<rparr>)))"
  by (simp add: sendStudyNotification_def try_catch_def io_bind_def external_call_eq)

lemma sendStudyNotification_outbox:
  "outbox (snd (sendStudyNotification e emails sts s)) =
     outbox s @ (if faults e (tick s) = None
                 then map (\<lambda>to. createEmailMessage to sts) (delivered e (Suc (tick s)) emails) else [])"
  by (cases "faults e (tick s)")
     (simp_all add: sendStudyNotification_down sendStudyNotification_up send_each_outbox console_log_def)

lemma sendDiscordNotification_posts:
  "webhook_posts (snd (sendDiscordNotification e sts s)) = webhook_posts s \<or>
   webhook_posts (snd (sendDiscordNotification e sts s)) = webhook_posts s @ [discord_embed sts]"
  by (auto simp: sendDiscordNotification_def try_catch_def io_bind_def external_call_eq console_log_def
      split: option.splits)

text \<open>
  C6, as the code has it. Every email the call sends carries one row for each study of
  the batch, however many there are, and its header count and subject give the number
  of studies of the batch. The embed posted to the Discord webhook carries the lines of
  the first ten studies at most, and its title gives the number of studies of the batch.
\<close>

theorem digest_sizes:
  "(\<forall>m \<in> set (drop (length (outbox s)) (outbox (snd (sendStudyNotification e emails sts s)))).
      mail_rows m = map email_row sts \<and> length (mail_rows m) = length sts \<and>
      mail_count m = length sts \<and>
      mail_subject m = string_of_nat (length sts) @ '' New ''
         @ (if length sts = 1 then ''Study'' else ''Studies'') @ '' Found on Respondent.io'') \<and>
   (\<forall>p \<in> set (drop (length (webhook_posts s)) (webhook_posts (snd (sendDiscordNotification e sts s)))).
      embed_lines p = map discord_line (take 10 sts) \<and> length (embed_lines p) \<le> 10 \<and>
      embed_title p = [CHR 0xF0, CHR 0x9F, CHR 0x94, CHR 0x94] @ '' '' @ string_of_nat (length sts)
         @ '' New '' @ (if length sts = 1 then ''Study'' else ''Studies'') @ '' Found!'')"
proof (intro conjI ballI)
  fix m assume "m \<in> set (drop (length (outbox s)) (outbox (snd (sendStudyNotification e emails sts s))))"
  then obtain to where m: "m = createEmailMessage to sts"
    by (auto simp: sendStudyNotification_outbox split: if_splits)
  show "mail_rows m = map email_row sts" "length (mail_rows m) = length sts" "mail_count m = length sts"
    "mail_subject m = string_of_nat (length sts) @ '' New ''
         @ (if length sts = 1 then ''Study'' else ''Studies'') @ '' Found on Respondent.io''"
    by (simp_all add: m createEmailMessage_def email_subject_def)
next
  fix p assume "p \<in> set (drop (length (webhook_posts s)) (webhook_posts (snd (sendDiscordNotification e sts s))))"
  then have p: "p = discord_embed sts"
    using sendDiscordNotification_posts [of e sts s] by auto
  show "embed_lines p = map discord_line (take 10 sts)" "length (embed_lines p) \<le> 10"
    "embed_title p = [CHR 0xF0, CHR 0x9F, CHR 0x94, CHR 0x94] @ '' '' @ string_of_nat (length sts)
         @ '' New '' @ (if length sts = 1 then ''Study'' else ''Studies'') @ '' Found!''"
    by (simp_all add: p discord_embed_def)
qed

lemma string_of_nat_11: "string_of_nat 11 = ''11''"
  by (simp add: string_of_nat.simps digit_char_def)

lemma length_eleven: "length eleven_studies = 11"
  by (simp add: eleven_studies_def)

lemma eleven_email:
  "faults e = (\<lambda>_. None) \<Longrightarrow>
   outbox (snd (sendStudyNotification e [''ann@example.com''] eleven_studies world_empty)) =
     [createEmailMessage ''ann@example.com'' eleven_studies]"
  by (simp add: sendStudyNotification_outbox delivered_def world_empty_def)

lemma faults_examples: "faults no_faults = (\<lambda>_. None)" "faults with_webhook = (\<lambda>_. None)"
  by (simp_all add: no_faults_def with_webhook_def)

lemma eleven_discord:
  "webhook_posts (snd (sendDiscordNotification with_webhook eleven_studies world_empty)) =
     [discord_embed eleven_studies]"
  by (simp add: sendDiscordNotification_def with_webhook_def no_faults_def world_empty_def truthy_text_def
      try_catch_def io_bind_def external_call_eq console_log_def)

theorem digest_sizes_witness:
  "createEmailMessage ''ann@example.com'' eleven_studies
     \<in> set (drop (length (outbox world_empty))
           (outbox (snd (sendStudyNotification with_webhook [''ann@example.com''] eleven_studies world_empty)))) \<and>
   length (mail_rows (createEmailMessage ''ann@example.com'' eleven_studies)) = 11 \<and>
   mail_subject (createEmailMessage ''ann@example.com'' eleven_studies) = ''11 New Studies Found on Respondent.io'' \<and>
   discord_embed eleven_studies
     \<in> set (drop (length (webhook_posts world_empty))
           (webhook_posts (snd (sendDiscordNotification with_webhook eleven_studies world_empty)))) \<and>
   length (embed_lines (discord_embed eleven_studies)) = 10 \<and>
   embed_title (discord_embed eleven_studies) = [CHR 0xF0, CHR 0x9F, CHR 0x94, CHR 0x94] @ '' 11 New Studies Found!''"
proof -
  have a: "createEmailMessage ''ann@example.com'' eleven_studies
     \<in> set (drop (length (outbox world_empty))
           (outbox (snd (sendStudyNotification with_webhook [''ann@example.com''] eleven_studies world_empty))))"
    by (simp add: eleven_email faults_examples) (simp add: world_empty_def)
  have b: "discord_embed eleven_studies
     \<in> set (drop (length (webhook_posts world_empty))
           (webhook_posts (snd (sendDiscordNotification with_webhook eleven_studies world_empty))))"
    by (simp add: eleven_discord) (simp add: world_empty_def)
  have c: "length (embed_lines (discord_embed eleven_studies)) = 10"
    by (simp add: discord_embed_def length_eleven)
  from digest_sizes [of world_empty with_webhook "[''ann@example.com'']" eleven_studies] a b
  have "length (mail_rows (createEmailMessage ''ann@example.com'' eleven_studies)) = length eleven_studies"
    and "mail_subject (createEmailMessage ''ann@example.com'' eleven_studies) =
          string_of_nat (length eleven_studies) @ '' New ''
            @ (if length eleven_studies = 1 then ''Study'' else ''Studies'') @ '' Found on Respondent.io''"
    and "embed_title (discord_embed eleven_studies) =
          [CHR 0xF0, CHR 0x9F, CHR 0x94, CHR 0x94] @ '' '' @ string_of_nat (length eleven_studies)
            @ '' New '' @ (if length eleven_studies = 1 then ''Study'' else ''Studies'') @ '' Found!''"
    by blast+
  then show ?thesis
    using a b c by (simp add: length_eleven string_of_nat_11)
qed

text \<open>
  A batch of eleven studies, one recipient, no failure: the email that goes out has
  eleven rows.
\<close>

theorem digest_cap_counterexample:
  "outbox (snd (sendStudyNotification no_faults [''ann@example.com''] eleven_studies world_empty)) =
     [createEmailMessage ''ann@example.com'' eleven_studies] \<and>
   length (mail_rows (createEmailMessage ''ann@example.com'' eleven_studies)) = 11 \<and>
   \<not> length (mail_rows (createEmailMessage ''ann@example.com'' eleven_studies)) \<le> 10"
  by (simp add: eleven_email faults_examples createEmailMessage_def length_eleven)

section \<open>Reconciling the candidates with the store\<close>

lemma query_eq:
  "query e f s =
     (case faults e (tick s) of
        Some m \<Rightarrow> (Inl (Exn m), s\<lparr>tick := Suc (tick s)\<rparr>)
      | None \<Rightarrow> (Inr (fst (f (s\<lparr>tick := Suc (tick s)\<rparr>))), snd (f (s\<lparr>tick := Suc (tick s)\<rparr>))))"
  by (simp add: query_def split: option.splits prod.splits)

lemma addLog_frame:
  "studies (addLog e msg ty s) = studies s"
  "emailRecipients (addLog e msg ty s) = emailRecipients s"
  "agentSettings (addLog e msg ty s) = agentSettings s"
  "outbox (addLog e msg ty s) = outbox s"
  "webhook_posts (addLog e msg ty s) = webhook_posts s"
  "isRunning (addLog e msg ty s) = isRunning s"
  "agentInterval (addLog e msg ty s) = agentInterval s"
  "tick (addLog e msg ty s) = Suc (tick s)"
  "next_id s \<le> next_id (addLog e msg ty s)"
  by (simp_all add: addLog_def addCheckLog_def query_eq console_log_def Let_def split: option.splits)

lemma addLog_console_last:
  "last (console (addLog e msg ty s)) = ''[Agent '' @ logType_upper ty @ ''] '' @ msg"
  by (simp add: addLog_def console_log_def Let_def)

lemma getStudyByExternalId_cases:
  assumes "getStudyByExternalId e k s = (a, s1)"
  shows "s1 = s\<lparr>tick := Suc (tick s)\<rparr>"
    and "(\<exists>m. a = Inl (Exn m)) \<or> a = Inr (find (\<lambda>r. externalId r = k) (studies s))"
  using assms by (auto simp: getStudyByExternalId_def query_eq split: option.splits)

lemma createStudy_Inl:
  assumes "createStudy e ins s = (Inl x, s2)"
  shows "s2 = s\<lparr>tick := Suc (tick s)\<rparr>"
  using assms
  by (auto simp: createStudy_def io_bind_def external_call_eq Let_def split: option.splits if_splits)

lemma createStudy_Inr:
  assumes "createStudy e ins s = (Inr saved, s2)"
  shows "s2 = s\<lparr>tick := Suc (tick s), studies := studies s @ [saved], next_id := Suc (next_id s)\<rparr>"
    and "externalId saved = externalId ins" and "notified saved = notified ins"
    and "study_id saved = next_id s"
    and "externalId ins \<notin> externalId ` set (studies s)"
  using assms
  by (auto simp: createStudy_def io_bind_def external_call_eq Let_def split: option.splits if_splits)


lemma same_settings_refl: "same_settings s s"
  by (simp add: same_settings_def)

lemma same_settings_trans: "same_settings s s1 \<Longrightarrow> same_settings s1 s2 \<Longrightarrow> same_settings s s2"
  by (auto simp: same_settings_def)

lemma same_settings_addLog: "same_settings s (addLog e msg ty s)"
  using addLog_frame(9) [of s e msg ty] by (simp add: same_settings_def addLog_frame)

lemma reconcile_post:
  "reconcile e cs s = (r, s') \<Longrightarrow>
   \<exists>ins. studies s' = studies s @ ins \<and>
     (\<forall>x\<in>set ins. notified x = Some False \<and> externalId x \<in> sc_externalId ` set cs \<and>
                   next_id s \<le> study_id x \<and> study_id x < next_id s') \<and>
     distinct (map externalId ins) \<and> distinct (map study_id ins) \<and>
     externalId ` set ins \<inter> externalId ` set (studies s) = {} \<and>
     (\<forall>new. r = Inr new \<longrightarrow> ins = new \<and> sc_externalId ` set cs \<subseteq> externalId ` set (studies s')) \<and>
     outbox s' = outbox s \<and> webhook_posts s' = webhook_posts s \<and> same_settings s s'"
proof (induction cs arbitrary: s r s')
  case Nil
  then show ?case by (auto simp: same_settings_refl)
next
  case (Cons c cs)
  obtain a s1 where g: "getStudyByExternalId e (sc_externalId c) s = (a, s1)"
    by (cases "getStudyByExternalId e (sc_externalId c) s")
  note g1 = getStudyByExternalId_cases [OF g]
  have f1: "studies s1 = studies s" "outbox s1 = outbox s" "webhook_posts s1 = webhook_posts s"
    "next_id s1 = next_id s" "same_settings s s1"
    by (simp_all add: g1(1) same_settings_def)
  show ?case
  proof (cases a)
    case (Inl x)
    with Cons.prems g have "r = Inl x" "s' = s1" by simp_all
    then show ?thesis using f1 by auto
  next
    case (Inr found)
    with g1(2) have found: "found = find (\<lambda>r. externalId r = sc_externalId c) (studies s)" by auto
    show ?thesis
    proof (cases found)
      case (Some existing)
      with Cons.prems g Inr have rest: "reconcile e cs s1 = (r, s')" by simp
      from Some found have here: "sc_externalId c \<in> externalId ` set (studies s)"
        by (metis (mono_tags, lifting) find_Some_iff image_eqI nth_mem)
      from Cons.IH [OF rest] obtain ins where ins:
        "studies s' = studies s1 @ ins"
        "\<forall>x\<in>set ins. notified x = Some False \<and> externalId x \<in> sc_externalId ` set cs \<and>
                   next_id s1 \<le> study_id x \<and> study_id x < next_id s'"
        "distinct (map externalId ins)" "distinct (map study_id ins)"
        "externalId ` set ins \<inter> externalId ` set (studies s1) = {}"
        "\<forall>new. r = Inr new \<longrightarrow> ins = new \<and> sc_externalId ` set cs \<subseteq> externalId ` set (studies s')"
        "outbox s' = outbox s1" "webhook_posts s' = webhook_posts s1" "same_settings s1 s'"
        by blast
      have ss: "same_settings s s'" using f1(5) ins(9) by (rule same_settings_trans)
      have q1: "studies s' = studies s @ ins" using ins(1) f1(1) by simp
      have q2: "\<forall>x\<in>set ins. notified x = Some False \<and> externalId x \<in> sc_externalId ` set (c # cs) \<and>
                   next_id s \<le> study_id x \<and> study_id x < next_id s'"
        using ins(2) f1(4) by auto
      have q5: "externalId ` set ins \<inter> externalId ` set (studies s) = {}"
        using ins(5) f1(1) by simp
      have q6: "\<forall>new. r = Inr new \<longrightarrow> ins = new \<and>
                   sc_externalId ` set (c # cs) \<subseteq> externalId ` set (studies s')"
      proof (intro allI impI)
        fix new assume "r = Inr new"
        with ins(6) have "ins = new" and sub: "sc_externalId ` set cs \<subseteq> externalId ` set (studies s')"
          by blast+
        moreover have "sc_externalId c \<in> externalId ` set (studies s')"
          using here q1 by auto
        ultimately show "ins = new \<and> sc_externalId ` set (c # cs) \<subseteq> externalId ` set (studies s')"
          by simp
      qed
      have q7: "outbox s' = outbox s" "webhook_posts s' = webhook_posts s"
        using ins(7,8) f1(2,3) by simp_all
      show ?thesis
        by (intro exI [of _ ins] conjI) (fact q1 q2 ins(3) ins(4) q5 q6 q7 ss)+
    next
      case None
      obtain b s2 where c: "createStudy e (insert_of c) s1 = (b, s2)"
        by (cases "createStudy e (insert_of c) s1")
      show ?thesis
      proof (cases b)
        case (Inl x)
        with Cons.prems g Inr None c have "r = Inl x" "s' = s2" by simp_all
        moreover from c Inl have "s2 = s1\<lparr>tick := Suc (tick s1)\<rparr>" by (simp add: createStudy_Inl)
        ultimately show ?thesis using f1 by (auto simp: same_settings_def)
      next
        case (Inr saved)
        note c1 = createStudy_Inr [OF c [unfolded Inr]]
        define s3 where "s3 = addLog e (''New study: '' @ [CHR 0x22] @ title saved @ [CHR 0x22] @ '' ($''
                                 @ string_of_int (payout saved) @ '')'') Success s2"
        obtain r' where rest: "reconcile e cs s3 = (r', s')"
          and r: "r = (case r' of Inl x \<Rightarrow> Inl x | Inr more_new \<Rightarrow> Inr (saved # more_new))"
          using Cons.prems g \<open>a = Inr found\<close> None c Inr
          by (auto simp: s3_def split: prod.splits sum.splits)
        have f3: "studies s3 = studies s @ [saved]" "outbox s3 = outbox s" "webhook_posts s3 = webhook_posts s"
          "Suc (next_id s) \<le> next_id s3" "same_settings s s3"
        proof -
          have f2: "studies s2 = studies s @ [saved]" "outbox s2 = outbox s"
            "webhook_posts s2 = webhook_posts s" "next_id s2 = Suc (next_id s)" "same_settings s1 s2"
            using f1 by (simp_all add: c1(1) same_settings_def)
          have a: "next_id s2 \<le> next_id s3" "same_settings s2 s3"
            unfolding s3_def by (rule addLog_frame(9), rule same_settings_addLog)
          show "studies s3 = studies s @ [saved]" "outbox s3 = outbox s" "webhook_posts s3 = webhook_posts s"
            unfolding s3_def by (simp_all add: addLog_frame f2)
          show "Suc (next_id s) \<le> next_id s3" using a(1) f2(4) by simp
          show "same_settings s s3"
            using f1(5) f2(5) a(2) by (blast intro: same_settings_trans)
        qed
        have saved: "notified saved = Some False" "externalId saved = sc_externalId c"
          "study_id saved = next_id s" "sc_externalId c \<notin> externalId ` set (studies s)"
          using c1 f1 by (simp_all add: insert_of_def)
        from Cons.IH [OF rest] obtain ins where ins:
          "studies s' = studies s3 @ ins"
          "\<forall>x\<in>set ins. notified x = Some False \<and> externalId x \<in> sc_externalId ` set cs \<and>
                     next_id s3 \<le> study_id x \<and> study_id x < next_id s'"
          "distinct (map externalId ins)" "distinct (map study_id ins)"
          "externalId ` set ins \<inter> externalId ` set (studies s3) = {}"
          "\<forall>new. r' = Inr new \<longrightarrow> ins = new \<and> sc_externalId ` set cs \<subseteq> externalId ` set (studies s')"
          "outbox s' = outbox s3" "webhook_posts s' = webhook_posts s3" "same_settings s3 s'"
          by blast
        have ss: "same_settings s s'" using f3(5) ins(9) by (rule same_settings_trans)
        have lt: "next_id s < next_id s'"
          using f3(4) ins(9) by (simp add: same_settings_def)
        have p1: "studies s' = studies s @ (saved # ins)" using ins(1) f3(1) by simp
        have p2: "\<forall>x\<in>set (saved # ins). notified x = Some False \<and>
                     externalId x \<in> sc_externalId ` set (c # cs) \<and>
                     next_id s \<le> study_id x \<and> study_id x < next_id s'"
          using ins(2) saved f3(4) lt by auto
        have p3: "distinct (map externalId (saved # ins))"
          using ins(3,5) f3(1) by auto
        have p4: "distinct (map study_id (saved # ins))"
          using ins(2,4) saved(3) f3(4) by auto
        have p5: "externalId ` set (saved # ins) \<inter> externalId ` set (studies s) = {}"
          using ins(5) f3(1) saved(2,4) by auto
        have p6: "\<forall>new. r = Inr new \<longrightarrow> saved # ins = new \<and>
                     sc_externalId ` set (c # cs) \<subseteq> externalId ` set (studies s')"
          using ins(6) r p1 saved(2) by (auto split: sum.splits)
        have p7: "outbox s' = outbox s" "webhook_posts s' = webhook_posts s"
          using ins(7,8) f3(2,3) by simp_all
        show ?thesis
          by (intro exI [of _ "saved # ins"] conjI) (fact p1 p2 p3 p4 p5 p6 p7 ss)+
      qed
    qed
  qed
qed

lemma find_append_Some:
  "find P xs = Some x \<Longrightarrow> find P (xs @ ys) = Some x"
  by (induction xs) auto

lemma reconcile_known:
  assumes "sc_externalId ` set cs \<subseteq> externalId ` set (studies s)"
    and "reconcile e cs s = (r, s')"
  shows "studies s' = studies s" and "r = Inr [] \<or> (\<exists>x. r = Inl x)"
proof -
  from reconcile_post [OF assms(2)] obtain ins where ins:
    "studies s' = studies s @ ins"
    "\<forall>x\<in>set ins. notified x = Some False \<and> externalId x \<in> sc_externalId ` set cs \<and>
                   next_id s \<le> study_id x \<and> study_id x < next_id s'"
    "externalId ` set ins \<inter> externalId ` set (studies s) = {}"
    "\<forall>new. r = Inr new \<longrightarrow> ins = new \<and> sc_externalId ` set cs \<subseteq> externalId ` set (studies s')"
    by (elim exE conjE)
  have "ins = []"
  proof (rule ccontr)
    assume "ins \<noteq> []"
    then obtain x where x: "x \<in> set ins" by (cases ins) auto
    with ins(2) have "externalId x \<in> sc_externalId ` set cs" by simp
    then have "externalId x \<in> externalId ` set (studies s)" by (rule subsetD [OF assms(1)])
    moreover have "externalId x \<in> externalId ` set ins" using x by (rule imageI)
    ultimately have "externalId x \<in> externalId ` set ins \<inter> externalId ` set (studies s)" by simp
    with ins(3) show False by simp
  qed
  then show "studies s' = studies s" using ins(1) by simp
  show "r = Inr [] \<or> (\<exists>x. r = Inl x)"
  proof (cases r)
    case (Inl x) then show ?thesis by simp
  next
    case (Inr new)
    with ins(4) have "ins = new" by simp
    with \<open>ins = []\<close> Inr show ?thesis by simp
  qed
qed

lemma reconcile_no_fault:
  "\<forall>n\<ge>tick s. faults e n = None \<Longrightarrow> \<exists>new. fst (reconcile e cs s) = Inr new"
proof (induction cs arbitrary: s)
  case Nil
  then show ?case by simp
next
  case (Cons c cs)
  have t0: "faults e (tick s) = None" and t1: "faults e (Suc (tick s)) = None"
    using Cons.prems by simp_all
  show ?case
  proof (cases "find (\<lambda>r. externalId r = sc_externalId c) (studies s)")
    case (Some existing)
    have "\<exists>new. fst (reconcile e cs (s\<lparr>tick := Suc (tick s)\<rparr>)) = Inr new"
      using Cons.prems by (intro Cons.IH) simp
    then show ?thesis
      using t0 Some by (simp add: getStudyByExternalId_def query_eq)
  next
    case None
    then have fresh: "\<not> (\<exists>r\<in>set (studies s). externalId r = sc_externalId c)"
      by (simp add: find_None_iff)
    obtain saved s2 where c: "createStudy e (insert_of c) (s\<lparr>tick := Suc (tick s)\<rparr>) = (Inr saved, s2)"
      and t2: "tick s2 = Suc (Suc (tick s))"
      using t1 fresh
      by (simp add: createStudy_def io_bind_def external_call_eq Let_def insert_of_def)
    define s3 where "s3 = addLog e (''New study: '' @ [CHR 0x22] @ title saved @ [CHR 0x22] @ '' ($''
                                 @ string_of_int (payout saved) @ '')'') Success s2"
    have "\<forall>n\<ge>tick s3. faults e n = None"
      using Cons.prems t2 by (simp add: s3_def addLog_frame)
    then obtain new where "fst (reconcile e cs s3) = Inr new"
      using Cons.IH by blast
    then obtain s4 where "reconcile e cs s3 = (Inr new, s4)"
      by (cases "reconcile e cs s3") simp
    then show ?thesis
      using t0 None c
      by (simp add: getStudyByExternalId_def query_eq s3_def)
  qed
qed

text \<open>
  C1. Start from a store whose identities are distinct and run the loop twice with the
  same candidates, under any pattern of database failures. The identities stay distinct,
  so no identity is inserted twice. Both runs only append: the records stored before are
  still there, unchanged and in place, and a lookup by identity that found a record
  before finds the same record after (so its \<open>notified\<close> flag and every other field are
  as they were). When the first run came to its end, the second inserts nothing, and
  returns the empty list if the database does not fail.
\<close>

theorem reconcile_idempotent:
  "distinct (map externalId (studies s)) \<and> reconcile e cs s = (r1, s1) \<and> reconcile e cs s1 = (r2, s2) \<longrightarrow>
     distinct (map externalId (studies s2)) \<and>
     prefix (studies s) (studies s1) \<and> prefix (studies s1) (studies s2) \<and>
     (\<forall>k x. find (\<lambda>r. externalId r = k) (studies s) = Some x \<longrightarrow>
            find (\<lambda>r. externalId r = k) (studies s2) = Some x) \<and>
     (\<forall>new. r1 = Inr new \<longrightarrow> studies s2 = studies s1 \<and> (r2 = Inr [] \<or> (\<exists>x. r2 = Inl x))) \<and>
     (\<forall>new. r1 = Inr new \<and> (\<forall>n\<ge>tick s1. faults e n = None) \<longrightarrow> r2 = Inr [])"
proof (intro impI)
  assume h: "distinct (map externalId (studies s)) \<and> reconcile e cs s = (r1, s1) \<and> reconcile e cs s1 = (r2, s2)"
  then have d: "distinct (map externalId (studies s))" and a: "reconcile e cs s = (r1, s1)"
    and b: "reconcile e cs s1 = (r2, s2)" by simp_all
  from reconcile_post [OF a] obtain ins1 where i1:
    "studies s1 = studies s @ ins1" "distinct (map externalId ins1)"
    "externalId ` set ins1 \<inter> externalId ` set (studies s) = {}"
    "\<forall>new. r1 = Inr new \<longrightarrow> ins1 = new \<and> sc_externalId ` set cs \<subseteq> externalId ` set (studies s1)"
    by blast
  from reconcile_post [OF b] obtain ins2 where i2:
    "studies s2 = studies s1 @ ins2" "distinct (map externalId ins2)"
    "externalId ` set ins2 \<inter> externalId ` set (studies s1) = {}"
    by blast
  have d1: "distinct (map externalId (studies s1))"
    using d i1 by auto
  have d2: "distinct (map externalId (studies s2))"
    using d1 i2 by auto
  have p1: "prefix (studies s) (studies s1)" and p2: "prefix (studies s1) (studies s2)"
    using i1(1) i2(1) by simp_all
  have f: "\<forall>k x. find (\<lambda>r. externalId r = k) (studies s) = Some x \<longrightarrow>
            find (\<lambda>r. externalId r = k) (studies s2) = Some x"
    unfolding i2(1) i1(1) append_assoc by (intro allI impI find_append_Some)
  have k: "\<forall>new. r1 = Inr new \<longrightarrow> studies s2 = studies s1 \<and> (r2 = Inr [] \<or> (\<exists>x. r2 = Inl x))"
  proof (intro allI impI)
    fix new assume "r1 = Inr new"
    with i1(4) have sub: "sc_externalId ` set cs \<subseteq> externalId ` set (studies s1)" by simp
    show "studies s2 = studies s1 \<and> (r2 = Inr [] \<or> (\<exists>x. r2 = Inl x))"
      using reconcile_known [OF sub b] by simp
  qed
  have n: "\<forall>new. r1 = Inr new \<and> (\<forall>n\<ge>tick s1. faults e n = None) \<longrightarrow> r2 = Inr []"
  proof (intro allI impI)
    fix new assume hh: "r1 = Inr new \<and> (\<forall>n\<ge>tick s1. faults e n = None)"
    then obtain l where "fst (reconcile e cs s1) = Inr l"
      using reconcile_no_fault [of s1 e cs] by blast
    with b have "r2 = Inr l" by simp
    moreover from k hh have "r2 = Inr [] \<or> (\<exists>x. r2 = Inl x)" by simp
    ultimately show "r2 = Inr []" by auto
  qed
  show "distinct (map externalId (studies s2)) \<and>
     prefix (studies s) (studies s1) \<and> prefix (studies s1) (studies s2) \<and>
     (\<forall>k x. find (\<lambda>r. externalId r = k) (studies s) = Some x \<longrightarrow>
            find (\<lambda>r. externalId r = k) (studies s2) = Some x) \<and>
     (\<forall>new. r1 = Inr new \<longrightarrow> studies s2 = studies s1 \<and> (r2 = Inr [] \<or> (\<exists>x. r2 = Inl x))) \<and>
     (\<forall>new. r1 = Inr new \<and> (\<forall>n\<ge>tick s1. faults e n = None) \<longrightarrow> r2 = Inr [])"
    by (intro conjI) (fact d2 p1 p2 f k n)+
qed

lemma first_run:
  "map externalId (studies (snd (reconcile no_faults two_candidates store_two))) = [''abc123'', ''def456'', ''0a1b2c'']"
  "\<exists>row. fst (reconcile no_faults two_candidates store_two) = Inr [row]"
  "tick (snd (reconcile no_faults two_candidates store_two)) = 11"
  by (simp_all add: two_candidates_def scraped_abc_def scraped_new_def store_two_def world_empty_def
      no_faults_def study_abc_def study_def_def getStudyByExternalId_def createStudy_def io_bind_def
      external_call_eq query_eq insert_of_def addLog_def addCheckLog_def console_log_def Let_def
      truthy_num_def truthy_text_def)


theorem reconcile_idempotent_witness:
  "distinct (map externalId (studies store_two)) \<and>
   map externalId (studies (snd (reconcile no_faults two_candidates store_two)))
     = [''abc123'', ''def456'', ''0a1b2c''] \<and>
   find (\<lambda>r. externalId r = ''abc123'')
     (studies (snd (reconcile no_faults two_candidates (snd (reconcile no_faults two_candidates store_two)))))
     = Some study_abc \<and>
   fst (reconcile no_faults two_candidates (snd (reconcile no_faults two_candidates store_two))) = Inr [] \<and>
   studies (snd (reconcile no_faults two_candidates (snd (reconcile no_faults two_candidates store_two))))
     = studies (snd (reconcile no_faults two_candidates store_two))"
proof -
  obtain r1 s1 where a: "reconcile no_faults two_candidates store_two = (r1, s1)"
    by (cases "reconcile no_faults two_candidates store_two")
  obtain r2 s2 where b: "reconcile no_faults two_candidates s1 = (r2, s2)"
    by (cases "reconcile no_faults two_candidates s1")
  have d: "distinct (map externalId (studies store_two))"
    by (simp add: store_two_def world_empty_def study_abc_def study_def_def)
  have f: "find (\<lambda>r. externalId r = ''abc123'') (studies store_two) = Some study_abc"
    by (simp add: store_two_def world_empty_def study_abc_def study_def_def)
  obtain row where r1: "r1 = Inr [row]"
    using first_run(2) a by auto
  have nf: "\<forall>n\<ge>tick s1. faults no_faults n = None"
    by (simp add: no_faults_def)
  from reconcile_idempotent [of store_two no_faults two_candidates r1 s1 r2 s2] d a b
  have c: "find (\<lambda>r. externalId r = ''abc123'') (studies store_two) = Some study_abc \<longrightarrow>
           find (\<lambda>r. externalId r = ''abc123'') (studies s2) = Some study_abc"
    and k: "\<forall>new. r1 = Inr new \<longrightarrow> studies s2 = studies s1 \<and> (r2 = Inr [] \<or> (\<exists>x. r2 = Inl x))"
    and n: "\<forall>new. r1 = Inr new \<and> (\<forall>n\<ge>tick s1. faults no_faults n = None) \<longrightarrow> r2 = Inr []"
    by simp_all
  from c f have c': "find (\<lambda>r. externalId r = ''abc123'') (studies s2) = Some study_abc" by simp
  from k r1 have k': "studies s2 = studies s1" by simp
  from n r1 nf have n': "r2 = Inr []" by simp
  show ?thesis
    using d first_run(1) c' k' n' by (simp add: a b)
qed

section \<open>The notified flag\<close>

lemma only_raised_refl: "only_raised ids xs xs"
  by (simp add: only_raised_def list_all2_refl)

lemma only_raised_mono: "only_raised ids xs ys \<Longrightarrow> ids \<subseteq> ids' \<Longrightarrow> only_raised ids' xs ys"
  unfolding only_raised_def by (erule list_all2_mono) auto

lemma only_raised_trans:
  "only_raised ids xs ys \<Longrightarrow> only_raised ids ys zs \<Longrightarrow> only_raised ids xs zs"
  unfolding only_raised_def
  by (erule (1) list_all2_trans [rotated]) auto

lemma only_raised_empty: "only_raised {} xs ys \<Longrightarrow> ys = xs"
  by (simp add: only_raised_def list_all2_eq [symmetric] eq_commute)

lemma only_raised_map: "only_raised ids xs (map (raise_flag ids) xs)"
  by (simp add: only_raised_def list_all2_map2 raise_flag_def list_all2_refl)

lemma raise_flag_twice: "raise_flag a (raise_flag b r) = raise_flag (a \<union> b) r"
  by (simp add: raise_flag_def)

lemma markStudyNotified_eq:
  "markStudyNotified e i s =
     (case faults e (tick s) of
        Some m \<Rightarrow> (Inl (Exn m), s\<lparr>tick := Suc (tick s)\<rparr>)
      | None \<Rightarrow> (Inr (), s\<lparr>tick := Suc (tick s), studies := map (raise_flag {i}) (studies s)\<rparr>))"
  by (simp add: markStudyNotified_def query_eq raise_flag_def split: option.splits)

lemma mark_all_Inr:
  "mark_all e sts s = (Inr u, s') \<Longrightarrow> studies s' = map (raise_flag (study_id ` set sts)) (studies s)"
proof (induction sts arbitrary: s)
  case Nil
  then show ?case by (simp add: raise_flag_def)
next
  case (Cons st rest)
  show ?case
  proof (cases "faults e (tick s)")
    case None
    with Cons.prems have "mark_all e rest (s\<lparr>tick := Suc (tick s), studies := map (raise_flag {study_id st}) (studies s)\<rparr>) = (Inr u, s')"
      by (simp add: markStudyNotified_eq)
    from Cons.IH [OF this] show ?thesis
      by (simp add: raise_flag_twice Un_commute)
  next
    case (Some m)
    with Cons.prems show ?thesis by (simp add: markStudyNotified_eq)
  qed
qed

lemma mark_all_post:
  "mark_all e sts s = (r, s') \<Longrightarrow>
   only_raised (study_id ` set sts) (studies s) (studies s') \<and>
   outbox s' = outbox s \<and> webhook_posts s' = webhook_posts s \<and> same_settings s s'"
proof (induction sts arbitrary: s)
  case Nil
  then show ?case by (auto simp: only_raised_refl same_settings_refl)
next
  case (Cons st rest)
  show ?case
  proof (cases "faults e (tick s)")
    case None
    define s1 where "s1 = s\<lparr>tick := Suc (tick s), studies := map (raise_flag {study_id st}) (studies s)\<rparr>"
    from None Cons.prems have "mark_all e rest s1 = (r, s')"
      by (simp add: markStudyNotified_eq s1_def)
    from Cons.IH [OF this] have ih: "only_raised (study_id ` set rest) (studies s1) (studies s')"
      "outbox s' = outbox s1" "webhook_posts s' = webhook_posts s1" "same_settings s1 s'"
      by simp_all
    have a: "only_raised (study_id ` set (st # rest)) (studies s) (studies s1)"
    proof -
      have "studies s1 = map (raise_flag {study_id st}) (studies s)" by (simp add: s1_def)
      then have "only_raised {study_id st} (studies s) (studies s1)" by (simp add: only_raised_map)
      then show ?thesis by (rule only_raised_mono) simp
    qed
    have b: "only_raised (study_id ` set (st # rest)) (studies s1) (studies s')"
      by (rule only_raised_mono [OF ih(1)]) auto
    have c: "same_settings s s1" by (simp add: same_settings_def s1_def)
    show ?thesis
      using only_raised_trans [OF a b] same_settings_trans [OF c ih(4)] ih(2,3)
      by (simp add: s1_def)
  next
    case (Some m)
    with Cons.prems show ?thesis
      by (auto simp: markStudyNotified_eq only_raised_refl same_settings_def)
  qed
qed


lemma send_each_frame:
  "studies (send_each e sts emails s) = studies s"
  "webhook_posts (send_each e sts emails s) = webhook_posts s"
  "emailRecipients (send_each e sts emails s) = emailRecipients s"
  "agentSettings (send_each e sts emails s) = agentSettings s"
  "isRunning (send_each e sts emails s) = isRunning s"
  "agentInterval (send_each e sts emails s) = agentInterval s"
  "next_id (send_each e sts emails s) = next_id s"
proof (induction emails arbitrary: s)
  case Nil
  {
    case 1 show ?case by simp
  next
    case 2 show ?case by simp
  next
    case 3 show ?case by simp
  next
    case 4 show ?case by simp
  next
    case 5 show ?case by simp
  next
    case 6 show ?case by simp
  next
    case 7 show ?case by simp
  }
next
  case (Cons to rest)
  {
    case 1 show ?case
      by (cases "faults e (tick s)")
         (simp_all add: send_each_ok send_each_fail Cons.IH console_log_def del: send_each.simps)
  next
    case 2 show ?case
      by (cases "faults e (tick s)")
         (simp_all add: send_each_ok send_each_fail Cons.IH console_log_def del: send_each.simps)
  next
    case 3 show ?case
      by (cases "faults e (tick s)")
         (simp_all add: send_each_ok send_each_fail Cons.IH console_log_def del: send_each.simps)
  next
    case 4 show ?case
      by (cases "faults e (tick s)")
         (simp_all add: send_each_ok send_each_fail Cons.IH console_log_def del: send_each.simps)
  next
    case 5 show ?case
      by (cases "faults e (tick s)")
         (simp_all add: send_each_ok send_each_fail Cons.IH console_log_def del: send_each.simps)
  next
    case 6 show ?case
      by (cases "faults e (tick s)")
         (simp_all add: send_each_ok send_each_fail Cons.IH console_log_def del: send_each.simps)
  next
    case 7 show ?case
      by (cases "faults e (tick s)")
         (simp_all add: send_each_ok send_each_fail Cons.IH console_log_def del: send_each.simps)
  }
qed

lemma sendStudyNotification_frame:
  "\<exists>b s3. sendStudyNotification e emails sts s = (Inr b, s3) \<and> studies s3 = studies s \<and>
     webhook_posts s3 = webhook_posts s \<and> same_settings s s3"
proof (cases "faults e (tick s)")
  case None
  show ?thesis
    unfolding sendStudyNotification_up [OF None]
    by (auto simp add: send_each_frame send_each_tick console_log_def same_settings_def)
next
  case (Some m)
  show ?thesis
    unfolding sendStudyNotification_down [OF Some]
    by (auto simp add: console_log_def same_settings_def)
qed

lemma getActiveEmailRecipients_eq:
  "getActiveEmailRecipients e s =
     (case faults e (tick s) of
        Some m \<Rightarrow> Inl (Exn m)
      | None \<Rightarrow> Inr (filter (\<lambda>r. active r = Some True) (emailRecipients s)),
      s\<lparr>tick := Suc (tick s)\<rparr>)"
  by (simp add: getActiveEmailRecipients_def query_eq split: option.splits)

lemma notify_new_post:
  assumes "notify_new e new s = (r, s')"
  shows "only_raised (if notification_sent e new s then study_id ` set new else {}) (studies s) (studies s') \<and>
         (\<forall>l. r = Inr l \<longrightarrow> l = new) \<and>
         (notification_sent e new s \<and> (\<exists>l. r = Inr l) \<longrightarrow>
            studies s' = map (raise_flag (study_id ` set new)) (studies s)) \<and>
         webhook_posts s' = webhook_posts s \<and> same_settings s s'"
proof -
  obtain a s1 where g: "getActiveEmailRecipients e s = (a, s1)"
    by (cases "getActiveEmailRecipients e s")
  then have s1: "s1 = s\<lparr>tick := Suc (tick s)\<rparr>"
    by (auto simp: getActiveEmailRecipients_eq)
  have f1: "studies s1 = studies s" "webhook_posts s1 = webhook_posts s" "same_settings s s1"
    by (simp_all add: s1 same_settings_def)
  show ?thesis
  proof (cases a)
    case (Inl x)
    with assms g have "r = Inl x" "s' = s1" by (simp_all add: notify_new_def io_bind_def)
    moreover have "\<not> notification_sent e new s" using g Inl by (simp add: notification_sent_def)
    ultimately show ?thesis using f1 by (simp add: only_raised_refl)
  next
    case (Inr rs)
    show ?thesis
    proof (cases "length rs > 0")
      case False
      with assms g Inr have "r = Inr new"
        and "s' = addLog e ''No active email recipients configured'' Warning s1"
        by (simp_all add: notify_new_def io_bind_def)
      moreover have "\<not> notification_sent e new s" using g Inr False by (simp add: notification_sent_def)
      ultimately show ?thesis
        using f1 same_settings_trans [OF f1(3) same_settings_addLog]
        by (simp add: only_raised_refl addLog_frame)
    next
      case True
      define s2 where "s2 = addLog e (''Sending notifications to '' @ string_of_nat (length (map email rs))
                                @ '' recipient(s)...'') Warning s1"
      obtain b s3 where send: "sendStudyNotification e (map email rs) new s2 = (Inr b, s3)"
        and f3: "studies s3 = studies s2" "webhook_posts s3 = webhook_posts s2" "same_settings s2 s3"
        using sendStudyNotification_frame [of e "map email rs" new s2] by blast
      have f2: "studies s2 = studies s" "webhook_posts s2 = webhook_posts s" "same_settings s s2"
        using f1 same_settings_trans [OF f1(3) same_settings_addLog]
        by (simp_all add: s2_def addLog_frame)
      have sent: "notification_sent e new s = b"
        using g Inr True send by (simp add: notification_sent_def s2_def)
      show ?thesis
      proof (cases b)
        case False
        with assms g Inr True send have "r = Inr new"
          and "s' = addLog e ''Failed to send email notifications'' Error s3"
          by (simp_all add: notify_new_def io_bind_def s2_def Let_def)
        then show ?thesis
          using sent False f2 f3 same_settings_trans [OF same_settings_trans [OF f2(3) f3(3)] same_settings_addLog]
          by (simp add: only_raised_refl addLog_frame)
      next
        case True
        define s4 where "s4 = addLog e ''Email notifications sent successfully'' Success s3"
        obtain m s5 where mk: "mark_all e new s4 = (m, s5)"
          by (cases "mark_all e new s4")
        have f4: "studies s4 = studies s" "webhook_posts s4 = webhook_posts s" "same_settings s s4"
          using f2 f3 same_settings_trans [OF same_settings_trans [OF f2(3) f3(3)] same_settings_addLog]
          by (simp_all add: s4_def addLog_frame)
        from assms g Inr \<open>length rs > 0\<close> send True mk
        have r: "r = (case m of Inl x \<Rightarrow> Inl x | Inr u \<Rightarrow> Inr new)" and s': "s' = s5"
          by (auto simp: notify_new_def io_bind_def io_return_def s2_def s4_def Let_def split: sum.splits)
        from mark_all_post [OF mk] have p: "only_raised (study_id ` set new) (studies s4) (studies s5)"
          "webhook_posts s5 = webhook_posts s4" "same_settings s4 s5"
          by simp_all
        have q: "(\<exists>l. r = Inr l) \<longrightarrow> studies s' = map (raise_flag (study_id ` set new)) (studies s)"
        proof
          assume "\<exists>l. r = Inr l"
          with r obtain u where "m = Inr u" by (cases m) auto
          with mk have "studies s5 = map (raise_flag (study_id ` set new)) (studies s4)"
            by (simp add: mark_all_Inr)
          then show "studies s' = map (raise_flag (study_id ` set new)) (studies s)"
            by (simp add: s' f4)
        qed
        have l: "\<forall>l. r = Inr l \<longrightarrow> l = new" using r by (cases m) auto
        show ?thesis
          using sent True p q l f4 same_settings_trans [OF f4(3) p(3)]
          by (simp add: s')
      qed
    qed
  qed
qed

lemma raise_flag_idem: "map (raise_flag ids) (map (raise_flag ids) xs) = map (raise_flag ids) xs"
  by (induction xs) (simp_all add: raise_flag_def)

lemma markStudyNotified_cases:
  assumes "markStudyNotified e i s = (r, s')"
  shows "(\<exists>m. faults e (tick s) = Some m \<and> r = Inl (Exn m) \<and> studies s' = studies s) \<or>
         (faults e (tick s) = None \<and> r = Inr () \<and> studies s' = map (raise_flag {i}) (studies s))"
proof (cases "faults e (tick s)")
  case None
  with assms have "r = Inr ()" "s' = s\<lparr>tick := Suc (tick s), studies := map (raise_flag {i}) (studies s)\<rparr>"
    by (simp_all add: markStudyNotified_eq)
  with None show ?thesis by simp
next
  case (Some m)
  with assms have "r = Inl (Exn m)" "s' = s\<lparr>tick := Suc (tick s)\<rparr>"
    by (simp_all add: markStudyNotified_eq)
  with Some show ?thesis by simp
qed


lemma markStudyNotified_twice: "markStudyNotified e i s = (Inr (), s3) \<and> markStudyNotified e i s3 = (r4, s4) \<Longrightarrow>
      studies s4 = studies s3 \<and>
      (\<forall>x\<in>set (studies s4). study_id x = i \<longrightarrow> notified x = Some True) \<and>
      (faults e (tick s3) = None \<longrightarrow> r4 = Inr ())"
proof -
  assume m: "markStudyNotified e i s = (Inr (), s3) \<and> markStudyNotified e i s3 = (r4, s4)"
  then have m1: "markStudyNotified e i s = (Inr (), s3)" and m2: "markStudyNotified e i s3 = (r4, s4)"
    by simp_all
  have s3: "studies s3 = map (raise_flag {i}) (studies s)"
    using markStudyNotified_cases [OF m1] by simp
  have marked: "\<forall>x\<in>set (studies s3). study_id x = i \<longrightarrow> notified x = Some True"
  proof
    fix x assume "x \<in> set (studies s3)"
    then obtain y where "x = raise_flag {i} y" unfolding s3 by auto
    then show "study_id x = i \<longrightarrow> notified x = Some True"
      by (simp add: raise_flag_def)
  qed
  have s4: "studies s4 = studies s3"
    using markStudyNotified_cases [OF m2] unfolding s3 by (auto simp only: raise_flag_idem)
  have r4: "faults e (tick s3) = None \<longrightarrow> r4 = Inr ()"
    using markStudyNotified_cases [OF m2] by auto
  show ?thesis using s4 marked r4 by simp
qed


lemma reconcile_creates_unnotified:
  assumes "reconcile e cs s = (r, s')"
  shows "\<forall>x\<in>set (drop (length (studies s)) (studies s')). notified x = Some False"
proof -
  from reconcile_post [OF assms] obtain ins where
    "studies s' = studies s @ ins" "\<forall>x\<in>set ins. notified x = Some False \<and>
       externalId x \<in> sc_externalId ` set cs \<and> next_id s \<le> study_id x \<and> study_id x < next_id s'"
    by (elim exE conjE)
  then show ?thesis by simp
qed

text \<open>
  C2. Every record a run creates is created with \<open>notified = false\<close>. The notification
  part of a run changes no record except that it may set \<open>notified\<close> to true, only on
  records of the batch, and only when \<open>sendStudyNotification\<close> was called for the batch
  and returned true; when there is no active recipient, or the call returned false, or
  the recipients could not be read, no record changes. When the call returned true and
  the run came to its end, every record of the batch has the flag. Setting the flag
  again leaves the records as they are, and does not fail when the database answers.
\<close>

theorem notified_flag_lifecycle:
  "(reconcile e cs s = (r, s') \<longrightarrow>
      (\<forall>x\<in>set (drop (length (studies s)) (studies s')). notified x = Some False)) \<and>
   (notify_new e new s = (r2, s2) \<longrightarrow>
      only_raised (if notification_sent e new s then study_id ` set new else {}) (studies s) (studies s2) \<and>
      (\<not> notification_sent e new s \<longrightarrow> studies s2 = studies s) \<and>
      (notification_sent e new s \<and> r2 = Inr new \<longrightarrow>
         (\<forall>x\<in>set (studies s2). study_id x \<in> study_id ` set new \<longrightarrow> notified x = Some True))) \<and>
   (markStudyNotified e i s = (Inr (), s3) \<and> markStudyNotified e i s3 = (r4, s4) \<longrightarrow>
      studies s4 = studies s3 \<and>
      (\<forall>x\<in>set (studies s4). study_id x = i \<longrightarrow> notified x = Some True) \<and>
      (faults e (tick s3) = None \<longrightarrow> r4 = Inr ()))"
proof (intro conjI)
  show "reconcile e cs s = (r, s') \<longrightarrow>
      (\<forall>x\<in>set (drop (length (studies s)) (studies s')). notified x = Some False)"
    by (intro impI reconcile_creates_unnotified)
next
  show "notify_new e new s = (r2, s2) \<longrightarrow>
      only_raised (if notification_sent e new s then study_id ` set new else {}) (studies s) (studies s2) \<and>
      (\<not> notification_sent e new s \<longrightarrow> studies s2 = studies s) \<and>
      (notification_sent e new s \<and> r2 = Inr new \<longrightarrow>
         (\<forall>x\<in>set (studies s2). study_id x \<in> study_id ` set new \<longrightarrow> notified x = Some True))"
  proof
    assume a: "notify_new e new s = (r2, s2)"
    note p = notify_new_post [OF a]
    have p1: "only_raised (if notification_sent e new s then study_id ` set new else {}) (studies s) (studies s2)"
      using p by (rule conjunct1)
    have p3: "notification_sent e new s \<and> (\<exists>l. r2 = Inr l) \<longrightarrow>
            studies s2 = map (raise_flag (study_id ` set new)) (studies s)"
      using p by (elim conjE)
    have q2: "\<not> notification_sent e new s \<longrightarrow> studies s2 = studies s"
    proof
      assume "\<not> notification_sent e new s"
      with p1 have "only_raised {} (studies s) (studies s2)" by simp
      then show "studies s2 = studies s" by (rule only_raised_empty)
    qed
    have q3: "notification_sent e new s \<and> r2 = Inr new \<longrightarrow>
         (\<forall>x\<in>set (studies s2). study_id x \<in> study_id ` set new \<longrightarrow> notified x = Some True)"
    proof (intro impI ballI)
      fix x
      assume h: "notification_sent e new s \<and> r2 = Inr new" and x: "x \<in> set (studies s2)"
        and i: "study_id x \<in> study_id ` set new"
      from p3 h have "studies s2 = map (raise_flag (study_id ` set new)) (studies s)" by blast
      with x obtain y where y: "x = raise_flag (study_id ` set new) y" by auto
      show "notified x = Some True"
        using i unfolding y by (simp add: raise_flag_def split: if_splits)
    qed
    show "only_raised (if notification_sent e new s then study_id ` set new else {}) (studies s) (studies s2) \<and>
      (\<not> notification_sent e new s \<longrightarrow> studies s2 = studies s) \<and>
      (notification_sent e new s \<and> r2 = Inr new \<longrightarrow>
         (\<forall>x\<in>set (studies s2). study_id x \<in> study_id ` set new \<longrightarrow> notified x = Some True))"
      by (intro conjI) (fact p1 q2 q3)+
  qed
next
  show "markStudyNotified e i s = (Inr (), s3) \<and> markStudyNotified e i s3 = (r4, s4) \<longrightarrow>
      studies s4 = studies s3 \<and>
      (\<forall>x\<in>set (studies s4). study_id x = i \<longrightarrow> notified x = Some True) \<and>
      (faults e (tick s3) = None \<longrightarrow> r4 = Inr ())"
    by (intro impI markStudyNotified_twice)
qed

lemma ready_sent: "notification_sent no_faults [study_def] store_ready"
  by (simp add: notification_sent_def getActiveEmailRecipients_eq no_faults_def store_ready_def
      store_two_def world_empty_def recipient_ann_def recipient_bob_def addLog_frame
      sendStudyNotification_up)

lemma ready_not_sent: "\<not> notification_sent gmail_unreachable [study_def] store_ready"
  by (simp add: notification_sent_def getActiveEmailRecipients_eq gmail_unreachable_def no_faults_def
      store_ready_def store_two_def world_empty_def recipient_ann_def recipient_bob_def addLog_frame
      sendStudyNotification_down)

lemma ready_run:
  "fst (notify_new no_faults [study_def] store_ready) = Inr [study_def]"
  "map notified (studies (snd (notify_new no_faults [study_def] store_ready))) = [Some True, Some True]"
  "map study_id (studies (snd (notify_new no_faults [study_def] store_ready))) = [0, 1]"
  by (simp_all add: notify_new_def io_bind_def io_return_def getActiveEmailRecipients_eq no_faults_def
      store_ready_def store_two_def world_empty_def recipient_ann_def recipient_bob_def
      sendStudyNotification_def try_catch_def external_call_eq query_eq markStudyNotified_def
      addLog_def addCheckLog_def console_log_def Let_def study_abc_def study_def_def)



lemma mark_twice_run:
  "fst (markStudyNotified no_faults (Suc 0) store_two) = Inr ()"
  "map notified (studies (snd (markStudyNotified no_faults (Suc 0) store_two))) = [Some True, Some True]"
  by (simp_all add: markStudyNotified_eq no_faults_def store_two_def world_empty_def raise_flag_def
      study_abc_def study_def_def)

theorem notified_flag_lifecycle_witness:
  "map externalId (drop (length (studies store_two))
      (studies (snd (reconcile no_faults two_candidates store_two)))) = [''0a1b2c''] \<and>
   map notified (drop (length (studies store_two))
      (studies (snd (reconcile no_faults two_candidates store_two)))) = [Some False] \<and>
   notification_sent no_faults [study_def] store_ready \<and>
   fst (notify_new no_faults [study_def] store_ready) = Inr [study_def] \<and>
   map notified (filter (\<lambda>x. study_id x \<in> study_id ` set [study_def])
      (studies (snd (notify_new no_faults [study_def] store_ready)))) = [Some True] \<and>
   \<not> notification_sent gmail_unreachable [study_def] store_ready \<and>
   studies (snd (notify_new gmail_unreachable [study_def] store_ready)) = studies store_ready \<and>
   fst (markStudyNotified no_faults (Suc 0) store_two) = Inr () \<and>
   faults no_faults (tick (snd (markStudyNotified no_faults (Suc 0) store_two))) = None \<and>
   fst (markStudyNotified no_faults (Suc 0) (snd (markStudyNotified no_faults (Suc 0) store_two))) = Inr () \<and>
   studies (snd (markStudyNotified no_faults (Suc 0) (snd (markStudyNotified no_faults (Suc 0) store_two))))
     = studies (snd (markStudyNotified no_faults (Suc 0) store_two))"
proof -
  obtain r s' where a: "reconcile no_faults two_candidates store_two = (r, s')"
    by (cases "reconcile no_faults two_candidates store_two")
  obtain r2 s2 where b: "notify_new no_faults [study_def] store_ready = (r2, s2)"
    by (cases "notify_new no_faults [study_def] store_ready")
  obtain r2' s2' where c: "notify_new gmail_unreachable [study_def] store_ready = (r2', s2')"
    by (cases "notify_new gmail_unreachable [study_def] store_ready")
  obtain s3 where d: "markStudyNotified no_faults (Suc 0) store_two = (Inr (), s3)"
    using mark_twice_run(1) by (cases "markStudyNotified no_faults (Suc 0) store_two") simp
  obtain r4 s4 where e: "markStudyNotified no_faults (Suc 0) s3 = (r4, s4)"
    by (cases "markStudyNotified no_faults (Suc 0) s3")
  have nf: "faults no_faults (tick s3) = None" by (simp add: no_faults_def)
  have r2: "r2 = Inr [study_def]" using ready_run(1) b by simp
  have two: "length (studies store_two) = 2" by (simp add: store_two_def world_empty_def)
  from notified_flag_lifecycle [of no_faults two_candidates store_two r s'] a
  have w1: "\<forall>x\<in>set (drop (length (studies store_two)) (studies s')). notified x = Some False"
    by simp
  from notified_flag_lifecycle [of no_faults _ store_ready _ _ "[study_def]" r2 s2] b ready_sent r2
  have w2: "\<forall>x\<in>set (studies s2). study_id x \<in> study_id ` set [study_def] \<longrightarrow> notified x = Some True"
    by simp
  from notified_flag_lifecycle [of gmail_unreachable _ store_ready _ _ "[study_def]" r2' s2'] c ready_not_sent
  have w3: "studies s2' = studies store_ready"
    by simp
  from notified_flag_lifecycle [of no_faults _ store_two _ _ _ _ _ "Suc 0" s3 r4 s4] d e nf
  have w4: "studies s4 = studies s3" "r4 = Inr ()"
    by simp_all
  have w0: "map externalId (drop (length (studies store_two)) (studies s')) = [''0a1b2c'']"
    using first_run(1) a by (simp add: two drop_map [symmetric])
  from w0 obtain x where "drop (length (studies store_two)) (studies s') = [x]"
    by (auto simp: map_eq_Cons_conv)
  with w1 have w1': "map notified (drop (length (studies store_two)) (studies s')) = [Some False]"
    by simp
  have "map study_id (studies s2) = [0, 1]"
    using ready_run(3) b by simp
  then obtain y z where yz: "studies s2 = [y, z]" "study_id y = 0" "study_id z = 1"
    by (auto simp: map_eq_Cons_conv)
  with w2 have w2': "map notified (filter (\<lambda>x. study_id x \<in> study_id ` set [study_def]) (studies s2)) = [Some True]"
    by (simp add: study_def_def)
  show ?thesis
    using w0 w1' ready_sent r2 w2' ready_not_sent w3 w4 nf
    by (simp add: a b c d e)
qed

section \<open>A run and its errors\<close>

lemma bind_call:
  "io_bind (external_call e) k s =
     (case faults e (tick s) of
        Some m \<Rightarrow> (Inl (Exn m), s\<lparr>tick := Suc (tick s)\<rparr>)
      | None \<Rightarrow> k () (s\<lparr>tick := Suc (tick s)\<rparr>))"
  by (simp add: io_bind_def external_call_eq split: option.splits)

lemma bind_caught_call:
  "io_bind (try_catch (external_call e) (\<lambda>x s. (Inr (), f s))) k s =
     k () (case faults e (tick s) of
             Some m \<Rightarrow> f (s\<lparr>tick := Suc (tick s)\<rparr>)
           | None \<Rightarrow> s\<lparr>tick := Suc (tick s)\<rparr>)"
  by (simp add: io_bind_def try_catch_def external_call_eq split: option.splits)

lemma bind_swallow_call:
  "io_bind (swallow (external_call e)) k s = k () (s\<lparr>tick := Suc (tick s)\<rparr>)"
  by (simp add: io_bind_def swallow_def try_catch_def io_return_def external_call_eq split: option.splits)

lemma scrape_steps_ok:
  "\<forall>k\<in>{0, 1, 2, 4, 5, 6}. faults e (tick s + k) = None \<Longrightarrow>
   fst (scrape_steps e found s) = Inr found"
  by (cases "faults e (tick s + 3)")
     (simp_all add: scrape_steps_def bind_call bind_caught_call io_return_def console_log_def
        eval_nat_numeral)

lemma scrape_steps_fail:
  "k \<in> {0, 1, 2, 4, 5, 6} \<Longrightarrow> faults e (tick s + k) \<noteq> None \<Longrightarrow>
   \<exists>x. fst (scrape_steps e found s) = Inl x"
  by (auto simp add: scrape_steps_def bind_call bind_caught_call io_return_def console_log_def
        eval_nat_numeral split: option.splits)


lemma scrape_steps_frame:
  "studies (snd (scrape_steps e found s)) = studies s"
  "outbox (snd (scrape_steps e found s)) = outbox s"
  "webhook_posts (snd (scrape_steps e found s)) = webhook_posts s"
  "emailRecipients (snd (scrape_steps e found s)) = emailRecipients s"
  "agentSettings (snd (scrape_steps e found s)) = agentSettings s"
  "isRunning (snd (scrape_steps e found s)) = isRunning s"
  "agentInterval (snd (scrape_steps e found s)) = agentInterval s"
  "next_id (snd (scrape_steps e found s)) = next_id s"
  "tick s \<le> tick (snd (scrape_steps e found s))"
  by (simp_all add: scrape_steps_def bind_call bind_caught_call io_return_def console_log_def
        split: option.splits)


lemma console_log_frame:
  "studies (console_log l s) = studies s"
  "outbox (console_log l s) = outbox s"
  "webhook_posts (console_log l s) = webhook_posts s"
  "emailRecipients (console_log l s) = emailRecipients s"
  "agentSettings (console_log l s) = agentSettings s"
  "isRunning (console_log l s) = isRunning s"
  "agentInterval (console_log l s) = agentInterval s"
  "next_id (console_log l s) = next_id s"
  "tick (console_log l s) = tick s"
  by (simp_all add: console_log_def)

lemma scrape_handler:
  "fst (io_bind (swallow (external_call e)) (\<lambda>_. io_return []) st) = Inr []"
  "studies (snd (io_bind (swallow (external_call e)) (\<lambda>_. io_return []) st)) = studies st"
  "outbox (snd (io_bind (swallow (external_call e)) (\<lambda>_. io_return []) st)) = outbox st"
  "webhook_posts (snd (io_bind (swallow (external_call e)) (\<lambda>_. io_return []) st)) = webhook_posts st"
  "emailRecipients (snd (io_bind (swallow (external_call e)) (\<lambda>_. io_return []) st)) = emailRecipients st"
  "agentSettings (snd (io_bind (swallow (external_call e)) (\<lambda>_. io_return []) st)) = agentSettings st"
  "isRunning (snd (io_bind (swallow (external_call e)) (\<lambda>_. io_return []) st)) = isRunning st"
  "agentInterval (snd (io_bind (swallow (external_call e)) (\<lambda>_. io_return []) st)) = agentInterval st"
  "next_id (snd (io_bind (swallow (external_call e)) (\<lambda>_. io_return []) st)) = next_id st"
  "tick st \<le> tick (snd (io_bind (swallow (external_call e)) (\<lambda>_. io_return []) st))"
  by (simp_all add: bind_swallow_call io_return_def)

lemma scrape_launched:
  "faults e (tick s) = None \<Longrightarrow>
   scrapeRespondentStudies e found s =
     (case scrape_steps e found
             ((console_log ''Launching headless browser for Respondent.io...'' s)\<lparr>tick := Suc (tick s)\<rparr>) of
        (Inl (Exn msg), s2) \<Rightarrow>
          io_bind (swallow (external_call e)) (\<lambda>_. io_return [])
            (console_log (''Error scraping Respondent.io: '' @ msg) s2)
      | (Inr l, s2) \<Rightarrow> (Inr l, s2))"
  by (simp add: scrapeRespondentStudies_def Let_def external_call_eq console_log_def try_catch_def
      split: prod.splits sum.splits exn.splits)

lemma scrape_not_launched:
  "faults e (tick s) = Some msg \<Longrightarrow>
   scrapeRespondentStudies e found s =
     (Inr [], console_log (''Error scraping Respondent.io: '' @ msg)
                ((console_log ''Launching headless browser for Respondent.io...'' s)\<lparr>tick := Suc (tick s)\<rparr>))"
  by (simp add: scrapeRespondentStudies_def Let_def external_call_eq console_log_def)

lemma scrape_result:
  "fst (scrapeRespondentStudies e found s) =
     Inr (if \<forall>k\<in>{0, 1, 2, 3, 5, 6, 7}. faults e (tick s + k) = None then found else [])"
proof (cases "faults e (tick s)")
  case (Some msg)
  then show ?thesis by (simp add: scrape_not_launched)
next
  case None
  define s1 where "s1 = (console_log ''Launching headless browser for Respondent.io...'' s)\<lparr>tick := Suc (tick s)\<rparr>"
  have t1: "tick s1 = Suc (tick s)" by (simp add: s1_def)
  obtain r s2 where st: "scrape_steps e found s1 = (r, s2)" by (cases "scrape_steps e found s1")
  show ?thesis
  proof (cases "\<forall>k\<in>{0, 1, 2, 4, 5, 6}. faults e (tick s1 + k) = None")
    case True
    then have "fst (scrape_steps e found s1) = Inr found" by (rule scrape_steps_ok)
    with st have "r = Inr found" by simp
    moreover have c: "\<forall>k\<in>{0, 1, 2, 3, 5, 6, 7}. faults e (tick s + k) = None"
      using True None by (simp add: t1 eval_nat_numeral)
    ultimately show ?thesis
      unfolding if_P [OF c] using st by (simp add: scrape_launched [OF None] s1_def [symmetric])
  next
    case False
    then obtain k where k: "k \<in> {0, 1, 2, 4, 5, 6}" "faults e (tick s1 + k) \<noteq> None" by blast
    from scrape_steps_fail [OF k, of found] st obtain x where "r = Inl x" by auto
    moreover obtain msg where "x = Exn msg" by (cases x)
    moreover have nc: "\<not> (\<forall>k\<in>{0, 1, 2, 3, 5, 6, 7}. faults e (tick s + k) = None)"
    proof -
      from k(1) have "Suc k \<in> {0, 1, 2, 3, 5, 6, 7}" by auto
      moreover from k(2) have "faults e (tick s + Suc k) \<noteq> None" by (simp add: t1)
      ultimately have "\<exists>j\<in>{0, 1, 2, 3, 5, 6, 7}. faults e (tick s + j) \<noteq> None" by (rule bexI [rotated])
      then show ?thesis by (simp only: ball_simps(10) not_not)
    qed
    ultimately show ?thesis
      unfolding if_not_P [OF nc]
      using st by (simp add: scrape_launched [OF None] s1_def [symmetric] scrape_handler)
  qed
qed

lemma scrape_frame:
  "studies (snd (scrapeRespondentStudies e found s)) = studies s"
  "outbox (snd (scrapeRespondentStudies e found s)) = outbox s"
  "webhook_posts (snd (scrapeRespondentStudies e found s)) = webhook_posts s"
  "same_settings s (snd (scrapeRespondentStudies e found s))"
proof -
  have "studies (snd (scrapeRespondentStudies e found s)) = studies s \<and>
        outbox (snd (scrapeRespondentStudies e found s)) = outbox s \<and>
        webhook_posts (snd (scrapeRespondentStudies e found s)) = webhook_posts s \<and>
        same_settings s (snd (scrapeRespondentStudies e found s))"
  proof (cases "faults e (tick s)")
    case (Some msg)
    then show ?thesis by (simp add: scrape_not_launched console_log_def same_settings_def)
  next
    case None
    define s1 where "s1 = (console_log ''Launching headless browser for Respondent.io...'' s)\<lparr>tick := Suc (tick s)\<rparr>"
    obtain r s2 where st: "scrape_steps e found s1 = (r, s2)" by (cases "scrape_steps e found s1")
    have f: "studies s2 = studies s" "outbox s2 = outbox s" "webhook_posts s2 = webhook_posts s"
      "emailRecipients s2 = emailRecipients s" "agentSettings s2 = agentSettings s"
      "isRunning s2 = isRunning s" "agentInterval s2 = agentInterval s" "next_id s2 = next_id s"
      "tick s \<le> tick s2"
      using scrape_steps_frame [where e = e and found = found and s = s1] st by (simp_all add: s1_def console_log_def)
    show ?thesis
    proof (cases r)
      case (Inr l)
      then show ?thesis
        using st f by (simp add: scrape_launched [OF None] s1_def [symmetric] same_settings_def)
    next
      case (Inl x)
      obtain msg where x: "x = Exn msg" by (cases x)
      have "tick s \<le> tick (snd (io_bind (swallow (external_call e)) (\<lambda>_. io_return ([] :: scrapedStudy list))
                 (console_log (''Error scraping Respondent.io: '' @ msg) s2)))"
        using f(9) by (simp add: bind_swallow_call io_return_def console_log_frame)
      then show ?thesis
        using st f Inl x
        by (simp add: scrape_launched [OF None] s1_def [symmetric] same_settings_def scrape_handler
            console_log_frame)
    qed
  qed
  then show "studies (snd (scrapeRespondentStudies e found s)) = studies s"
    "outbox (snd (scrapeRespondentStudies e found s)) = outbox s"
    "webhook_posts (snd (scrapeRespondentStudies e found s)) = webhook_posts s"
    "same_settings s (snd (scrapeRespondentStudies e found s))"
    by simp_all
qed

lemma only_raised_externalId: "only_raised ids xs ys \<Longrightarrow> map externalId ys = map externalId xs"
  unfolding only_raised_def
  by (induction xs ys rule: list_all2_induct) auto

lemma only_raised_append: "only_raised ids xs ys \<Longrightarrow> only_raised ids (xs @ zs) (ys @ zs)"
  unfolding only_raised_def
  by (simp add: list_all2_appendI list_all2_refl)

lemma runCheck_try_post:
  assumes "runCheck_try e found s = (r, s')"
  shows "\<exists>ins. (\<forall>y\<in>set ins. notified y = Some False) \<and>
           only_raised (if try_sent e found s then study_id ` set ins else {}) (studies s @ ins) (studies s') \<and>
           (\<forall>l. r = Inr l \<longrightarrow> l = ins) \<and>
           webhook_posts s' = webhook_posts s \<and> same_settings s s'"
proof -
  obtain cs s1 where sc: "scrapeRespondentStudies e found s = (Inr cs, s1)"
    using scrape_result [of e found s] by (cases "scrapeRespondentStudies e found s") auto
  have f1: "studies s1 = studies s" "webhook_posts s1 = webhook_posts s" "same_settings s s1"
    using scrape_frame [where e = e and found = found and s = s] sc by simp_all
  show ?thesis
  proof (cases "length cs = 0")
    case True
    with assms sc have "r = Inr []" and "s' = addLog e ''No studies found on Respondent.io page'' Info s1"
      by (simp_all add: runCheck_try_def io_bind_def)
    moreover have "\<not> try_sent e found s" using sc True by (simp add: try_sent_def)
    ultimately show ?thesis
      using f1 same_settings_trans [OF f1(3) same_settings_addLog]
      by (intro exI [of _ "[]"]) (simp add: only_raised_refl addLog_frame)
  next
    case False
    define s1' where "s1' = addLog e (''Found '' @ string_of_nat (length cs) @ '' potential studies'') Info s1"
    obtain rr s2 where rc: "reconcile e cs s1' = (rr, s2)" by (cases "reconcile e cs s1'")
    have f1': "studies s1' = studies s" "webhook_posts s1' = webhook_posts s" "same_settings s s1'"
      using f1 same_settings_trans [OF f1(3) same_settings_addLog]
      by (simp_all add: s1'_def addLog_frame)
    from reconcile_post [OF rc] obtain ins where ins:
      "studies s2 = studies s1' @ ins"
      "\<forall>x\<in>set ins. notified x = Some False \<and> externalId x \<in> sc_externalId ` set cs \<and>
                   next_id s1' \<le> study_id x \<and> study_id x < next_id s2"
      "\<forall>new. rr = Inr new \<longrightarrow> ins = new \<and> sc_externalId ` set cs \<subseteq> externalId ` set (studies s2)"
      "webhook_posts s2 = webhook_posts s1'" "same_settings s1' s2"
      by (elim exE conjE)
    have i1: "\<forall>y\<in>set ins. notified y = Some False" using ins(2) by simp
    have f2: "studies s2 = studies s @ ins" "webhook_posts s2 = webhook_posts s" "same_settings s s2"
      using ins f1' same_settings_trans [OF f1'(3) ins(5)] by simp_all
    show ?thesis
    proof (cases rr)
      case (Inl x)
      with assms sc False rc have "r = Inl x" "s' = s2"
        by (simp_all add: runCheck_try_def io_bind_def s1'_def)
      moreover have "\<not> try_sent e found s" using sc rc Inl by (simp add: try_sent_def s1'_def)
      ultimately show ?thesis
        using i1 f2 by (intro exI [of _ ins]) (simp add: only_raised_refl)
    next
      case (Inr new)
      with ins(3) have new: "new = ins" by simp
      show ?thesis
      proof (cases "length new = 0")
        case True
        with assms sc False rc Inr have "r = Inr []"
          and "s' = addLog e ''All studies already known - no new matches'' Info s2"
          by (simp_all add: runCheck_try_def io_bind_def s1'_def)
        moreover have "\<not> try_sent e found s" using sc rc Inr True by (simp add: try_sent_def s1'_def)
        ultimately show ?thesis
          using i1 f2 new True same_settings_trans [OF f2(3) same_settings_addLog]
          by (intro exI [of _ ins]) (simp add: only_raised_refl addLog_frame)
      next
        case nonempty: False
        with assms sc False rc Inr have nn: "notify_new e new s2 = (r, s')"
          by (simp add: runCheck_try_def io_bind_def s1'_def)
        have ts: "try_sent e found s = notification_sent e new s2"
          using sc rc Inr nonempty by (simp add: try_sent_def s1'_def)
        from notify_new_post [OF nn] have p:
          "only_raised (if notification_sent e new s2 then study_id ` set new else {}) (studies s2) (studies s')"
          "\<forall>l. r = Inr l \<longrightarrow> l = new"
          "webhook_posts s' = webhook_posts s2" "same_settings s2 s'"
          by simp_all
        have q1: "only_raised (if try_sent e found s then study_id ` set ins else {}) (studies s @ ins) (studies s')"
          using p(1) unfolding ts f2(1) new .
        have q2: "\<forall>l. r = Inr l \<longrightarrow> l = ins" using p(2) new by simp
        have q3: "webhook_posts s' = webhook_posts s" using p(3) f2(2) by simp
        have q4: "same_settings s s'" using f2(3) p(4) by (rule same_settings_trans)
        show ?thesis
          by (intro exI [of _ ins] conjI) (fact i1 q1 q2 q3 q4)+
      qed
    qed
  qed
qed

lemma runCheck_cases:
  "(\<exists>l s1. runCheck_try e found (addLog e ''Initiating scheduled check...'' Info s) = (Inr l, s1) \<and>
           runCheck e found s = (Inr l, s1)) \<or>
   (\<exists>msg s1. runCheck_try e found (addLog e ''Initiating scheduled check...'' Info s) = (Inl (Exn msg), s1) \<and>
           runCheck e found s = (Inr [], addLog e (''Check failed: '' @ msg) Error s1))"
proof -
  obtain r s1 where t: "runCheck_try e found (addLog e ''Initiating scheduled check...'' Info s) = (r, s1)"
    by (cases "runCheck_try e found (addLog e ''Initiating scheduled check...'' Info s)")
  show ?thesis
  proof (cases r)
    case (Inr l)
    with t show ?thesis by (simp add: runCheck_def try_catch_def)
  next
    case (Inl x)
    obtain msg where "x = Exn msg" by (cases x)
    with t Inl show ?thesis by (simp add: runCheck_def try_catch_def)
  qed
qed



lemma runCheck_post:
  "\<exists>ins. (\<forall>y\<in>set ins. notified y = Some False) \<and>
         only_raised (if run_sent e found s then study_id ` set ins else {}) (studies s @ ins)
           (studies (snd (runCheck e found s)))"
proof -
  define s0 where "s0 = addLog e ''Initiating scheduled check...'' Info s"
  obtain r s1 where t: "runCheck_try e found s0 = (r, s1)" by (cases "runCheck_try e found s0")
  from runCheck_try_post [OF t] obtain ins where ins:
    "\<forall>y\<in>set ins. notified y = Some False"
    "only_raised (if try_sent e found s0 then study_id ` set ins else {}) (studies s0 @ ins) (studies s1)"
    by (elim exE conjE)
  have "studies (snd (runCheck e found s)) = studies s1"
    using runCheck_cases [of e found s] t by (auto simp: s0_def addLog_frame)
  then have "only_raised (if run_sent e found s then study_id ` set ins else {}) (studies s @ ins)
           (studies (snd (runCheck e found s)))"
    using ins(2) by (simp add: run_sent_def s0_def addLog_frame)
  with ins(1) show ?thesis by blast
qed

lemma runCheck_threw:
  assumes "run_threw e found s"
  shows "fst (runCheck e found s) = Inr []"
    and "\<exists>msg. fst (runCheck_try e found (addLog e ''Initiating scheduled check...'' Info s)) = Inl (Exn msg) \<and>
               last (console (snd (runCheck e found s))) = ''[Agent ERROR] Check failed: '' @ msg"
proof -
  from assms runCheck_cases [of e found s] obtain msg s1 where
    t: "runCheck_try e found (addLog e ''Initiating scheduled check...'' Info s) = (Inl (Exn msg), s1)"
    and r: "runCheck e found s = (Inr [], addLog e (''Check failed: '' @ msg) Error s1)"
    by (auto simp: run_threw_def)
  show "fst (runCheck e found s) = Inr []" by (simp add: r)
  have "last (console (snd (runCheck e found s))) = ''[Agent ERROR] Check failed: '' @ msg"
    by (simp add: r addLog_console_last logType_upper_def)
  with t show "\<exists>msg. fst (runCheck_try e found (addLog e ''Initiating scheduled check...'' Info s)) = Inl (Exn msg) \<and>
               last (console (snd (runCheck e found s))) = ''[Agent ERROR] Check failed: '' @ msg"
    by auto
qed

lemma runCheck_fetch_failure:
  assumes "fst (scrapeRespondentStudies e found (addLog e ''Initiating scheduled check...'' Info s)) = Inr []"
  shows "fst (runCheck e found s) = Inr []"
    and "studies (snd (runCheck e found s)) = studies s"
    and "outbox (snd (runCheck e found s)) = outbox s"
proof -
  define s0 where "s0 = addLog e ''Initiating scheduled check...'' Info s"
  obtain s1 where sc: "scrapeRespondentStudies e found s0 = (Inr [], s1)"
    using assms by (cases "scrapeRespondentStudies e found s0") (simp add: s0_def)
  have f: "studies s1 = studies s" "outbox s1 = outbox s"
    using scrape_frame(1,2) [of e found s0] sc by (simp_all add: s0_def addLog_frame)
  have "runCheck e found s = (Inr [], addLog e ''No studies found on Respondent.io page'' Info s1)"
    using sc by (simp add: runCheck_def try_catch_def runCheck_try_def io_bind_def s0_def)
  then show "fst (runCheck e found s) = Inr []" "studies (snd (runCheck e found s)) = studies s"
    "outbox (snd (runCheck e found s)) = outbox s"
    using f by (simp_all add: addLog_frame)
qed

text \<open>
  C8. \<open>runCheck\<close> always returns a list. When anything inside its \<^verbatim>\<open>try\<close> block throws,
  it returns the empty list and the last line on the console is the failure with the
  message of the exception. \<open>scrapeRespondentStudies\<close> never throws either: it returns
  what the page gave when every browser step went through (a failed
  \<^verbatim>\<open>waitForSelector\<close> apart, which is ignored), and the empty list as soon as one of
  them failed. When the scrape gives the empty list the run returns the empty list,
  with the studies and the outbox as they were. No run removes a stored study.
\<close>

theorem runCheck_contained:
  "(\<exists>l. fst (runCheck e found s) = Inr l) \<and>
   (run_threw e found s \<longrightarrow>
      fst (runCheck e found s) = Inr [] \<and>
      (\<exists>msg. fst (runCheck_try e found (addLog e ''Initiating scheduled check...'' Info s)) = Inl (Exn msg) \<and>
             last (console (snd (runCheck e found s))) = ''[Agent ERROR] Check failed: '' @ msg)) \<and>
   fst (scrapeRespondentStudies e found s) =
      Inr (if \<forall>k\<in>{0, 1, 2, 3, 5, 6, 7}. faults e (tick s + k) = None then found else []) \<and>
   (fst (scrapeRespondentStudies e found (addLog e ''Initiating scheduled check...'' Info s)) = Inr [] \<longrightarrow>
      fst (runCheck e found s) = Inr [] \<and>
      studies (snd (runCheck e found s)) = studies s \<and>
      outbox (snd (runCheck e found s)) = outbox s) \<and>
   map externalId (take (length (studies s)) (studies (snd (runCheck e found s)))) = map externalId (studies s)"
proof (intro conjI impI)
  show "\<exists>l. fst (runCheck e found s) = Inr l"
    using runCheck_cases [of e found s] by auto
next
  assume t: "run_threw e found s"
  show "fst (runCheck e found s) = Inr []" by (rule runCheck_threw(1) [OF t])
  show "\<exists>msg. fst (runCheck_try e found (addLog e ''Initiating scheduled check...'' Info s)) = Inl (Exn msg) \<and>
             last (console (snd (runCheck e found s))) = ''[Agent ERROR] Check failed: '' @ msg"
    by (rule runCheck_threw(2) [OF t])
next
  show "fst (scrapeRespondentStudies e found s) =
      Inr (if \<forall>k\<in>{0, 1, 2, 3, 5, 6, 7}. faults e (tick s + k) = None then found else [])"
    by (rule scrape_result)
next
  assume f: "fst (scrapeRespondentStudies e found (addLog e ''Initiating scheduled check...'' Info s)) = Inr []"
  show "fst (runCheck e found s) = Inr []" by (rule runCheck_fetch_failure(1) [OF f])
  show "studies (snd (runCheck e found s)) = studies s" by (rule runCheck_fetch_failure(2) [OF f])
  show "outbox (snd (runCheck e found s)) = outbox s" by (rule runCheck_fetch_failure(3) [OF f])
next
  from runCheck_post [of e found s] obtain ins where
    "only_raised (if run_sent e found s then study_id ` set ins else {}) (studies s @ ins)
           (studies (snd (runCheck e found s)))"
    by (elim exE conjE)
  then have "map externalId (studies (snd (runCheck e found s))) = map externalId (studies s @ ins)"
    by (rule only_raised_externalId)
  then have "take (length (studies s)) (map externalId (studies (snd (runCheck e found s)))) = map externalId (studies s)"
    by simp
  then show "map externalId (take (length (studies s)) (studies (snd (runCheck e found s)))) = map externalId (studies s)"
    by (simp add: take_map)
qed



lemma run_21:
  "run_threw (db_down_at 21) two_new store_ready"
  "fst (runCheck_try (db_down_at 21) two_new
          (addLog (db_down_at 21) ''Initiating scheduled check...'' Info store_ready))
     = Inl (Exn ''connection terminated'')"
  by code_simp+

lemma run_8:
  "fst (scrapeRespondentStudies (db_down_at 8) two_new
          (addLog (db_down_at 8) ''Initiating scheduled check...'' Info store_ready)) = Inr []"
  by code_simp

lemma no_faults_none: "faults no_faults n = None"
  by (simp add: no_faults_def)

theorem runCheck_contained_witness:
  "run_threw (db_down_at 21) two_new store_ready \<and>
   fst (runCheck (db_down_at 21) two_new store_ready) = Inr [] \<and>
   last (console (snd (runCheck (db_down_at 21) two_new store_ready)))
     = ''[Agent ERROR] Check failed: connection terminated'' \<and>
   faults no_faults (tick store_ready) = None \<and>
   fst (scrapeRespondentStudies no_faults two_new store_ready) = Inr two_new \<and>
   fst (scrapeRespondentStudies (db_down_at 8) two_new
          (addLog (db_down_at 8) ''Initiating scheduled check...'' Info store_ready)) = Inr [] \<and>
   fst (runCheck (db_down_at 8) two_new store_ready) = Inr [] \<and>
   studies (snd (runCheck (db_down_at 8) two_new store_ready)) = studies store_ready"
proof -
  from runCheck_contained [of "db_down_at 21" two_new store_ready] run_21(1)
  have a: "fst (runCheck (db_down_at 21) two_new store_ready) = Inr []"
    and "\<exists>msg. fst (runCheck_try (db_down_at 21) two_new
                   (addLog (db_down_at 21) ''Initiating scheduled check...'' Info store_ready)) = Inl (Exn msg) \<and>
             last (console (snd (runCheck (db_down_at 21) two_new store_ready))) = ''[Agent ERROR] Check failed: '' @ msg"
    by simp_all
  then have b: "last (console (snd (runCheck (db_down_at 21) two_new store_ready)))
     = ''[Agent ERROR] Check failed: connection terminated''"
    by (auto simp: run_21(2))
  have c: "\<forall>k\<in>{0, 1, 2, 3, 5, 6, 7}. faults no_faults (tick store_ready + k) = None"
    by (simp add: no_faults_none)
  have "fst (scrapeRespondentStudies no_faults two_new store_ready) =
      Inr (if \<forall>k\<in>{0, 1, 2, 3, 5, 6, 7}. faults no_faults (tick store_ready + k) = None then two_new else [])"
    using runCheck_contained [of no_faults two_new store_ready] by (elim conjE)
  then have d: "fst (scrapeRespondentStudies no_faults two_new store_ready) = Inr two_new"
    unfolding if_P [OF c] .
  from runCheck_contained [of "db_down_at 8" two_new store_ready] run_8
  have e: "fst (runCheck (db_down_at 8) two_new store_ready) = Inr []"
    "studies (snd (runCheck (db_down_at 8) two_new store_ready)) = studies store_ready"
    by simp_all
  have c0: "faults no_faults (tick store_ready) = None"
    by (simp add: no_faults_none)
  show ?thesis
    by (intro conjI) (fact run_21(1) a b c0 d run_8 e)+
qed



section \<open>The scheduler\<close>









end
